theory Spec2Isabelle
  imports Complex_Main
begin

section \<open>The mood rotation selector\<close>

text \<open>
  The module keeps an ordered catalogue of importer functions and one module-level flag.
  An importer is an opaque handle here; the five entries of the source are the
  constructors of \<open>Mood\<close>. A JavaScript value that may be \<^verbatim>\<open>undefined\<close> is an
  \<open>option\<close>: \<open>None\<close> is \<^verbatim>\<open>undefined\<close>, \<open>Some f\<close> is the importer \<open>f\<close>.
\<close>

datatype Mood = July17 | July18 | July20 | July25 | Augest8

definition allMoodImporters :: "Mood list" where
  "allMoodImporters = [July17, July18, July20, July25, Augest8]"

text \<open>The module-level variable \<^verbatim>\<open>let isFirstCall = true\<close>.\<close>

record module_state =
  isFirstCall :: bool

definition module_init :: module_state where
  "module_init = \<lparr>isFirstCall = True\<rparr>"

text \<open>
  Reading an array at an index: JavaScript yields \<^verbatim>\<open>undefined\<close> outside the range
  (index \<open>-1\<close> of the empty array, index \<open>0\<close> of the empty array), and never throws.
\<close>

definition array_get :: "'a list \<Rightarrow> int \<Rightarrow> 'a option" where
  "array_get xs i = (if 0 \<le> i \<and> i < int (length xs) then Some (xs ! nat i) else None)"

text \<open>
  The \<^verbatim>\<open>do ... while (newImporter === current)\<close> loop. Each iteration consumes one value
  of \<^verbatim>\<open>Math.random()\<close>; the values still to come are the list argument, and the loop
  returns the accepted importer with the values it has not consumed. The loop has no
  bound in the source: \<open>None\<close> says that every supplied value was rejected and the loop
  is still running.
\<close>

fun draw_loop :: "'a list \<Rightarrow> 'a option \<Rightarrow> real list \<Rightarrow> ('a option \<times> real list) option" where
  "draw_loop importers current [] = None"
| "draw_loop importers current (r # rs) =
     (let newImporter = array_get importers \<lfloor>r * real (length importers)\<rfloor>
      in if newImporter = current then draw_loop importers current rs
         else Some (newImporter, rs))"

text \<open>
  \<^verbatim>\<open>getRandomMoodImporter(current?)\<close>, with the catalogue it reads, the module state it
  reads and writes, and the random values it may consume made explicit. The result is
  the returned value, the module state after the call and the unconsumed random values.
\<close>

definition getRandomMoodImporter ::
  "'a list \<Rightarrow> module_state \<Rightarrow> 'a option \<Rightarrow> real list
     \<Rightarrow> ('a option \<times> module_state \<times> real list) option" where
  "getRandomMoodImporter importers st current rs =
     (if isFirstCall st
      then Some (array_get importers (int (length importers) - 1),
                 st\<lparr>isFirstCall := False\<rparr>, rs)
      else if length importers \<le> 1
      then Some (array_get importers 0, st, rs)
      else (case draw_loop importers current rs of
              None \<Rightarrow> None
            | Some (newImporter, rs') \<Rightarrow> Some (newImporter, st, rs')))"

text \<open>
  A sequence of calls, each with its own \<^verbatim>\<open>current\<close> argument and its own supply of
  random values, threading the module state from one call to the next. The result is the
  module state after the last call; \<open>None\<close> when one of the calls has not returned.
\<close>

fun call_sequence ::
  "'a list \<Rightarrow> module_state \<Rightarrow> ('a option \<times> real list) list \<Rightarrow> module_state option" where
  "call_sequence importers st [] = Some st"
| "call_sequence importers st ((current, rs) # calls) =
     (case getRandomMoodImporter importers st current rs of
        None \<Rightarrow> None
      | Some (v, st', rs') \<Rightarrow> call_sequence importers st' calls)"

section \<open>The pipeline diagram: nodes and link routing\<close>

text \<open>
  The component \<^verbatim>\<open>Mood\<close> of \<^verbatim>\<open>Augest8.tsx\<close>. The string literal types are
  datatypes, an optional field is an \<open>option\<close>, and the field \<^verbatim>\<open>id\<close> is called
  \<open>node_id\<close>. The records take the type of numbers as a parameter, because the functions
  are given in two readings. In this section and the next a JavaScript number is a real
  number and the arithmetic is exact: this reading settles the claims about which
  operations the code applies and to which fields. Further down the same functions are
  given over IEEE doubles, with rounding, overflow, infinities and \<^verbatim>\<open>NaN\<close>: that reading
  settles the claims about the values that come out.
\<close>

datatype NodeId =
  appRender | macBypass | afxdp | decoder | displayCtrl | uiOverlay | composition | panel

datatype Icon = click | swap | blocks | xdp | scan | monitor | layers | stack

datatype Shape = circle | square

datatype Neon = magenta | cyan | none

record 'n FlowNode =
  node_id :: NodeId
  title :: string
  label :: string
  subtitle :: "string option"
  x :: 'n
  y :: 'n
  w :: 'n
  h :: 'n
  icon :: Icon
  shape :: "Shape option"
  neon :: "Neon option"
  iconScale :: "'n option"

definition vbWidth :: real where
  "vbWidth = 1024 + 0"

definition vbHeight :: real where
  "vbHeight = 768 + 0"

text \<open>
  The canonical layout. The non-breaking hyphen U+2011 of three titles and one subtitle
  is written as its UTF-8 bytes.
\<close>

definition nb_hyphen :: string where
  "nb_hyphen = [CHR 0xE2, CHR 0x80, CHR 0x91]"

definition initialNodes :: "real FlowNode list" where
  "initialNodes =
   [\<lparr>node_id = appRender, title = ''App Render Trigger'', label = ''App Trigger'',
      subtitle = Some ''sender app'', x = 10, y = 100, w = 156, h = 176, icon = click,
      shape = Some square, neon = Some magenta, iconScale = Some (12 / 10)\<rparr>,
    \<lparr>node_id = macBypass, title = ''Wi'' @ nb_hyphen @ ''Fi MAC Bypass'',
      label = ''MAC Bypass'', subtitle = Some ''MAC path'', x = 20, y = 350, w = 136,
      h = 156, icon = swap, shape = None, neon = None, iconScale = None\<rparr>,
    \<lparr>node_id = afxdp, title = ''AF_XDP Zero'' @ nb_hyphen @ ''Copy'', label = ''AF_XDP'',
      subtitle = Some (''user'' @ nb_hyphen @ ''space''), x = 220, y = 350, w = 136,
      h = 156, icon = xdp, shape = None, neon = None, iconScale = None\<rparr>,
    \<lparr>node_id = decoder, title = ''Line'' @ nb_hyphen @ ''based Decoder'',
      label = ''Line Decoder'', subtitle = Some ''decode'', x = 420, y = 350, w = 136,
      h = 156, icon = scan, shape = None, neon = None, iconScale = None\<rparr>,
    \<lparr>node_id = displayCtrl, title = ''Display Controller'', label = ''Display Ctrl'',
      subtitle = Some ''KMS plane'', x = 620, y = 350, w = 136, h = 156, icon = blocks,
      shape = None, neon = None, iconScale = None\<rparr>,
    \<lparr>node_id = uiOverlay, title = ''UI Overlay (GPU)'', label = ''Independent UI'',
      subtitle = Some ''UI plane (GPU)'', x = 720, y = 550, w = 136, h = 156,
      icon = layers, shape = None, neon = None, iconScale = None\<rparr>,
    \<lparr>node_id = composition, title = ''Final Composition'', label = ''Composition'',
      subtitle = Some ''composer'', x = 820, y = 350, w = 136, h = 156, icon = stack,
      shape = None, neon = None, iconScale = None\<rparr>,
    \<lparr>node_id = panel, title = ''Display Panel'', label = ''Panel'',
      subtitle = Some ''panel'', x = 810, y = 100, w = 156, h = 176, icon = monitor,
      shape = Some square, neon = Some cyan, iconScale = Some (12 / 10)\<rparr>]"

text \<open>\<^verbatim>\<open>centerOf\<close>: the pair \<open>(cx, cy)\<close>.\<close>

definition centerOf :: "real FlowNode \<Rightarrow> real \<times> real" where
  "centerOf n = (x n + w n / 2, y n + h n / 2)"

text \<open>\<^verbatim>\<open>Math.hypot\<close> of two arguments.\<close>

definition hypot :: "real \<Rightarrow> real \<Rightarrow> real" where
  "hypot a b = sqrt (a\<^sup>2 + b\<^sup>2)"

text \<open>
  \<^verbatim>\<open>buildAdaptivePath\<close> is translated block by block, each block of the source being
  one definition: the classification (the constant \<^verbatim>\<open>horizontal\<close>), the source anchor
  \<open>(sx, sy, sNx, sNy)\<close>, the target anchor \<open>(txa, tya, tNx, tNy)\<close>, the control distance
  \<open>k\<close>, and the returned path.
\<close>

definition horizontal :: "real FlowNode \<Rightarrow> real FlowNode \<Rightarrow> bool" where
  "horizontal from to =
     (let (fx, fy) = centerOf from;
          (tx, ty) = centerOf to;
          dx = tx - fx;
          dy = ty - fy
      in \<bar>dx\<bar> \<ge> \<bar>dy\<bar>)"

definition sourceAnchor :: "real FlowNode \<Rightarrow> real FlowNode \<Rightarrow> real \<times> real \<times> real \<times> real" where
  "sourceAnchor from to =
     (let (fx, fy) = centerOf from;
          (tx, ty) = centerOf to;
          dx = tx - fx;
          dy = ty - fy
      in if horizontal from to
         then (if dx \<ge> 0 then (x from + w from, fy, 1, 0) else (x from, fy, - 1, 0))
         else (if dy \<ge> 0 then (fx, y from + h from, 0, 1) else (fx, y from, 0, - 1)))"

definition targetAnchor :: "real FlowNode \<Rightarrow> real FlowNode \<Rightarrow> real \<times> real \<times> real \<times> real" where
  "targetAnchor from to =
     (let (fx, fy) = centerOf from;
          (tx, ty) = centerOf to;
          dx = tx - fx;
          dy = ty - fy
      in if horizontal from to
         then (if dx \<ge> 0 then (x to, ty, - 1, 0) else (x to + w to, ty, 1, 0))
         else (if dy \<ge> 0 then (tx, y to, 0, - 1) else (tx, y to + h to, 0, 1)))"

definition controlDistance :: "real FlowNode \<Rightarrow> real FlowNode \<Rightarrow> real" where
  "controlDistance from to =
     (let (sx, sy, sNx, sNy) = sourceAnchor from to;
          (txa, tya, tNx, tNy) = targetAnchor from to;
          dist = hypot (txa - sx) (tya - sy)
      in min 120 (max 40 (dist / 3)))"

text \<open>
  The returned string \<^verbatim>\<open>M sx sy C c1x c1y, c2x c2y, txa tya\<close> is modelled by its eight
  numbers, in the order in which the template prints them.
\<close>

datatype 'n path_d = M_C 'n 'n 'n 'n 'n 'n 'n 'n

definition buildAdaptivePath :: "real FlowNode \<Rightarrow> real FlowNode \<Rightarrow> real path_d" where
  "buildAdaptivePath from to =
     (let (sx, sy, sNx, sNy) = sourceAnchor from to;
          (txa, tya, tNx, tNy) = targetAnchor from to;
          k = controlDistance from to;
          c1x = sx + sNx * k;
          c1y = sy + sNy * k;
          c2x = txa + tNx * k;
          c2y = tya + tNy * k
      in M_C sx sy c1x c1y c2x c2y txa tya)"

text \<open>The centering offset, computed once from the canonical layout.\<close>

definition offsetX :: real where
  "offsetX =
     (let minX = Min (set (map x initialNodes));
          maxX = Max (set (map (\<lambda>n. x n + w n) initialNodes));
          contentWidth = maxX - minX
      in (vbWidth - contentWidth) / 2 - minX)"

section \<open>The pipeline diagram: dragging\<close>

text \<open>
  The value of \<^verbatim>\<open>draggingRef.current\<close>; its field \<^verbatim>\<open>id\<close> is called \<open>drag_id\<close>, and
  \<open>None\<close> is \<^verbatim>\<open>null\<close>. The component state that the handlers read and write is the
  node list (the React state \<^verbatim>\<open>nodes\<close>) and the drag reference.
\<close>

record 'n dragging =
  drag_id :: "NodeId option"
  dx :: 'n
  dy :: 'n

record 'n diagram =
  nodes :: "'n FlowNode list"
  draggingRef :: "'n dragging"

definition diagram_init :: "real diagram" where
  "diagram_init = \<lparr>nodes = initialNodes, draggingRef = \<lparr>drag_id = None, dx = 0, dy = 0\<rparr>\<rparr>"

text \<open>
  The handlers take the pointer position as \<^verbatim>\<open>clientToSvg\<close> returns it, a pair
  \<open>(x, y)\<close> in the coordinates of the SVG canvas. \<^verbatim>\<open>onPointerDown\<close> is the handler of
  the rendered node \<open>n\<close>.
\<close>

definition onPointerDown :: "real FlowNode \<Rightarrow> real \<times> real \<Rightarrow> real diagram \<Rightarrow> real diagram" where
  "onPointerDown n start st =
     st\<lparr>draggingRef :=
          \<lparr>drag_id = Some (node_id n),
           dx = fst start - (x n + offsetX),
           dy = snd start - y n\<rparr>\<rparr>"

definition handleMove :: "real \<times> real \<Rightarrow> real diagram \<Rightarrow> real diagram" where
  "handleMove pt st =
     (let drag = draggingRef st
      in case drag_id drag of
           None \<Rightarrow> st
         | Some i \<Rightarrow>
             (let localX = fst pt - offsetX
              in st\<lparr>nodes :=
                      map (\<lambda>n. if node_id n = i
                                then n\<lparr>x := localX - dx drag, y := snd pt - dy drag\<rparr>
                                else n)
                          (nodes st)\<rparr>))"

definition handleUp :: "real diagram \<Rightarrow> real diagram" where
  "handleUp st = st\<lparr>draggingRef := \<lparr>drag_id = None, dx = 0, dy = 0\<rparr>\<rparr>"

section \<open>The routing algorithm in the words of the specification\<close>












section \<open>IEEE double arithmetic\<close>

text \<open>
  A JavaScript number is a binary64 value: \<^verbatim>\<open>NaN\<close>, one of the two infinities, or a
  finite number. The two zeros are not told apart: the code never divides by a value that
  can be zero (its divisors are the literals 2 and 3), and both zeros print as \<^verbatim>\<open>0\<close>.
\<close>

datatype number = NaN | PosInf | NegInf | is_Fin: Fin real

text \<open>
  Rounding to the nearest double, ties to even. For \<open>v \<noteq> 0\<close> with
  \<open>2 powi e \<le> \<bar>v\<bar> < 2 powi (e + 1)\<close> the doubles around \<open>v\<close> are the integer multiples of
  \<open>2 powi (e - 52)\<close>, and below the normal range, where \<open>e < - 1022\<close>, the integer multiples
  of \<open>2 powi (- 1074)\<close>. A rounded value of magnitude \<open>2 ^ 1024\<close> or more is an infinity.
\<close>

definition round_even :: "real \<Rightarrow> int" where
  "round_even t =
     (let f = \<lfloor>t\<rfloor>; d = t - of_int f
      in if d < 1 / 2 then f else if 1 / 2 < d then f + 1 else if even f then f else f + 1)"

definition fl :: "real \<Rightarrow> number" where
  "fl v =
     (if v = 0 then Fin 0
      else let e = max \<lfloor>log 2 \<bar>v\<bar>\<rfloor> (- 1022);
               q = 2 powi (e - 52);
               r = of_int (round_even (v / q)) * q
           in if 2 ^ 1024 \<le> r then PosInf
              else if r \<le> - (2 ^ 1024) then NegInf
              else Fin r)"

text \<open>
  The operators \<^verbatim>\<open>+\<close>, \<^verbatim>\<open>-\<close>, \<^verbatim>\<open>*\<close>, \<^verbatim>\<open>/\<close>, \<^verbatim>\<open>Math.abs\<close>, \<^verbatim>\<open><=\<close> and \<^verbatim>\<open><\<close> on numbers: the exact
  result rounded, \<^verbatim>\<open>NaN\<close> for the undefined forms and for every operation on \<^verbatim>\<open>NaN\<close>, and
  every comparison with \<^verbatim>\<open>NaN\<close> false.
\<close>

instantiation number :: "{plus, minus, times, inverse, abs, ord}"
begin

fun plus_number :: "number \<Rightarrow> number \<Rightarrow> number" where
  "plus_number NaN b = NaN"
| "plus_number a NaN = NaN"
| "plus_number PosInf NegInf = NaN"
| "plus_number NegInf PosInf = NaN"
| "plus_number PosInf b = PosInf"
| "plus_number NegInf b = NegInf"
| "plus_number (Fin a) PosInf = PosInf"
| "plus_number (Fin a) NegInf = NegInf"
| "plus_number (Fin a) (Fin b) = fl (a + b)"

fun minus_number :: "number \<Rightarrow> number \<Rightarrow> number" where
  "minus_number NaN b = NaN"
| "minus_number a NaN = NaN"
| "minus_number PosInf PosInf = NaN"
| "minus_number NegInf NegInf = NaN"
| "minus_number PosInf b = PosInf"
| "minus_number NegInf b = NegInf"
| "minus_number (Fin a) PosInf = NegInf"
| "minus_number (Fin a) NegInf = PosInf"
| "minus_number (Fin a) (Fin b) = fl (a - b)"

fun times_number :: "number \<Rightarrow> number \<Rightarrow> number" where
  "times_number NaN b = NaN"
| "times_number a NaN = NaN"
| "times_number PosInf PosInf = PosInf"
| "times_number PosInf NegInf = NegInf"
| "times_number NegInf PosInf = NegInf"
| "times_number NegInf NegInf = PosInf"
| "times_number PosInf (Fin b) = (if b = 0 then NaN else if 0 < b then PosInf else NegInf)"
| "times_number NegInf (Fin b) = (if b = 0 then NaN else if 0 < b then NegInf else PosInf)"
| "times_number (Fin a) PosInf = (if a = 0 then NaN else if 0 < a then PosInf else NegInf)"
| "times_number (Fin a) NegInf = (if a = 0 then NaN else if 0 < a then NegInf else PosInf)"
| "times_number (Fin a) (Fin b) = fl (a * b)"

fun divide_number :: "number \<Rightarrow> number \<Rightarrow> number" where
  "divide_number NaN b = NaN"
| "divide_number a NaN = NaN"
| "divide_number PosInf PosInf = NaN"
| "divide_number PosInf NegInf = NaN"
| "divide_number NegInf PosInf = NaN"
| "divide_number NegInf NegInf = NaN"
| "divide_number PosInf (Fin b) = (if 0 \<le> b then PosInf else NegInf)"
| "divide_number NegInf (Fin b) = (if 0 \<le> b then NegInf else PosInf)"
| "divide_number (Fin a) PosInf = Fin 0"
| "divide_number (Fin a) NegInf = Fin 0"
| "divide_number (Fin a) (Fin b) =
     (if b = 0 then (if a = 0 then NaN else if 0 < a then PosInf else NegInf)
      else fl (a / b))"

definition inverse_number :: "number \<Rightarrow> number" where
  "inverse_number a = divide (Fin 1) a"

fun abs_number :: "number \<Rightarrow> number" where
  "abs_number NaN = NaN"
| "abs_number PosInf = PosInf"
| "abs_number NegInf = PosInf"
| "abs_number (Fin a) = Fin \<bar>a\<bar>"

fun less_eq_number :: "number \<Rightarrow> number \<Rightarrow> bool" where
  "less_eq_number NaN b = False"
| "less_eq_number a NaN = False"
| "less_eq_number NegInf b = True"
| "less_eq_number a PosInf = True"
| "less_eq_number PosInf b = False"
| "less_eq_number (Fin a) NegInf = False"
| "less_eq_number (Fin a) (Fin b) = (a \<le> b)"

fun less_number :: "number \<Rightarrow> number \<Rightarrow> bool" where
  "less_number NaN b = False"
| "less_number a NaN = False"
| "less_number PosInf b = False"
| "less_number a NegInf = False"
| "less_number NegInf b = True"
| "less_number (Fin a) PosInf = True"
| "less_number (Fin a) (Fin b) = (a < b)"

instance ..

end

text \<open>
  \<^verbatim>\<open>Math.max\<close> and \<^verbatim>\<open>Math.min\<close> return \<^verbatim>\<open>NaN\<close> when an argument is \<^verbatim>\<open>NaN\<close>; with no argument
  they return the negative and the positive infinity. \<^verbatim>\<open>Math.hypot\<close> returns the positive
  infinity when an argument is infinite, otherwise \<^verbatim>\<open>NaN\<close> when an argument is \<^verbatim>\<open>NaN\<close>; for
  finite arguments the language leaves the accuracy of the root to the implementation,
  and the correctly rounded root is taken here.
\<close>

fun Math_max :: "number \<Rightarrow> number \<Rightarrow> number" where
  "Math_max NaN b = NaN"
| "Math_max a NaN = NaN"
| "Math_max a b = (if a \<le> b then b else a)"

fun Math_min :: "number \<Rightarrow> number \<Rightarrow> number" where
  "Math_min NaN b = NaN"
| "Math_min a NaN = NaN"
| "Math_min a b = (if a \<le> b then a else b)"

fun Math_max_list :: "number list \<Rightarrow> number" where
  "Math_max_list [] = NegInf"
| "Math_max_list (a # as) = Math_max a (Math_max_list as)"

fun Math_min_list :: "number list \<Rightarrow> number" where
  "Math_min_list [] = PosInf"
| "Math_min_list (a # as) = Math_min a (Math_min_list as)"

fun Math_hypot :: "number \<Rightarrow> number \<Rightarrow> number" where
  "Math_hypot PosInf b = PosInf"
| "Math_hypot NegInf b = PosInf"
| "Math_hypot a PosInf = PosInf"
| "Math_hypot a NegInf = PosInf"
| "Math_hypot NaN b = NaN"
| "Math_hypot a NaN = NaN"
| "Math_hypot (Fin a) (Fin b) = fl (sqrt (a\<^sup>2 + b\<^sup>2))"

section \<open>The pipeline diagram in double arithmetic\<close>

text \<open>
  The definitions of the two sections on the diagram once more, operation for operation,
  over doubles; their names end in \<open>_f64\<close>. A numeric literal of the source is the
  double nearest to it.
\<close>

definition node_f64 :: "real FlowNode \<Rightarrow> number FlowNode" where
  "node_f64 n =
     \<lparr>node_id = node_id n, title = title n, label = label n, subtitle = subtitle n,
      x = fl (x n), y = fl (y n), w = fl (w n), h = fl (h n), icon = icon n,
      shape = shape n, neon = neon n, iconScale = map_option fl (iconScale n)\<rparr>"

definition initialNodes_f64 :: "number FlowNode list" where
  "initialNodes_f64 = map node_f64 initialNodes"

definition centerOf_f64 :: "number FlowNode \<Rightarrow> number \<times> number" where
  "centerOf_f64 n = (x n + w n / Fin 2, y n + h n / Fin 2)"

definition horizontal_f64 :: "number FlowNode \<Rightarrow> number FlowNode \<Rightarrow> bool" where
  "horizontal_f64 from to =
     (let (fx, fy) = centerOf_f64 from;
          (tx, ty) = centerOf_f64 to;
          dx = tx - fx;
          dy = ty - fy
      in \<bar>dx\<bar> \<ge> \<bar>dy\<bar>)"

definition sourceAnchor_f64 ::
  "number FlowNode \<Rightarrow> number FlowNode \<Rightarrow> number \<times> number \<times> number \<times> number" where
  "sourceAnchor_f64 from to =
     (let (fx, fy) = centerOf_f64 from;
          (tx, ty) = centerOf_f64 to;
          dx = tx - fx;
          dy = ty - fy
      in if horizontal_f64 from to
         then (if dx \<ge> Fin 0 then (x from + w from, fy, Fin 1, Fin 0)
               else (x from, fy, Fin (- 1), Fin 0))
         else (if dy \<ge> Fin 0 then (fx, y from + h from, Fin 0, Fin 1)
               else (fx, y from, Fin 0, Fin (- 1))))"

definition targetAnchor_f64 ::
  "number FlowNode \<Rightarrow> number FlowNode \<Rightarrow> number \<times> number \<times> number \<times> number" where
  "targetAnchor_f64 from to =
     (let (fx, fy) = centerOf_f64 from;
          (tx, ty) = centerOf_f64 to;
          dx = tx - fx;
          dy = ty - fy
      in if horizontal_f64 from to
         then (if dx \<ge> Fin 0 then (x to, ty, Fin (- 1), Fin 0)
               else (x to + w to, ty, Fin 1, Fin 0))
         else (if dy \<ge> Fin 0 then (tx, y to, Fin 0, Fin (- 1))
               else (tx, y to + h to, Fin 0, Fin 1)))"

definition controlDistance_f64 :: "number FlowNode \<Rightarrow> number FlowNode \<Rightarrow> number" where
  "controlDistance_f64 from to =
     (let (sx, sy, sNx, sNy) = sourceAnchor_f64 from to;
          (txa, tya, tNx, tNy) = targetAnchor_f64 from to;
          dist = Math_hypot (txa - sx) (tya - sy)
      in Math_min (Fin 120) (Math_max (Fin 40) (dist / Fin 3)))"

definition buildAdaptivePath_f64 :: "number FlowNode \<Rightarrow> number FlowNode \<Rightarrow> number path_d" where
  "buildAdaptivePath_f64 from to =
     (let (sx, sy, sNx, sNy) = sourceAnchor_f64 from to;
          (txa, tya, tNx, tNy) = targetAnchor_f64 from to;
          k = controlDistance_f64 from to;
          c1x = sx + sNx * k;
          c1y = sy + sNy * k;
          c2x = txa + tNx * k;
          c2y = tya + tNy * k
      in M_C sx sy c1x c1y c2x c2y txa tya)"

text \<open>The eight numbers of a path, in the order of the string.\<close>

fun path_numbers :: "'n path_d \<Rightarrow> 'n list" where
  "path_numbers (M_C sx sy c1x c1y c2x c2y txa tya) = [sx, sy, c1x, c1y, c2x, c2y, txa, tya]"

definition vbWidth_f64 :: number where
  "vbWidth_f64 = Fin 1024 + Fin 0"

definition offsetX_f64 :: number where
  "offsetX_f64 =
     (let minX = Math_min_list (map x initialNodes_f64);
          maxX = Math_max_list (map (\<lambda>n. x n + w n) initialNodes_f64);
          contentWidth = maxX - minX
      in (vbWidth_f64 - contentWidth) / Fin 2 - minX)"

definition diagram_init_f64 :: "number diagram" where
  "diagram_init_f64 =
     \<lparr>nodes = initialNodes_f64, draggingRef = \<lparr>drag_id = None, dx = Fin 0, dy = Fin 0\<rparr>\<rparr>"

definition onPointerDown_f64 ::
  "number FlowNode \<Rightarrow> number \<times> number \<Rightarrow> number diagram \<Rightarrow> number diagram" where
  "onPointerDown_f64 n start st =
     st\<lparr>draggingRef :=
          \<lparr>drag_id = Some (node_id n),
           dx = fst start - (x n + offsetX_f64),
           dy = snd start - y n\<rparr>\<rparr>"

definition handleMove_f64 :: "number \<times> number \<Rightarrow> number diagram \<Rightarrow> number diagram" where
  "handleMove_f64 pt st =
     (let drag = draggingRef st
      in case drag_id drag of
           None \<Rightarrow> st
         | Some i \<Rightarrow>
             (let localX = fst pt - offsetX_f64
              in st\<lparr>nodes :=
                      map (\<lambda>n. if node_id n = i
                                then n\<lparr>x := localX - dx drag, y := snd pt - dy drag\<rparr>
                                else n)
                          (nodes st)\<rparr>))"

definition handleUp_f64 :: "number diagram \<Rightarrow> number diagram" where
  "handleUp_f64 st = st\<lparr>draggingRef := \<lparr>drag_id = None, dx = Fin 0, dy = Fin 0\<rparr>\<rparr>"

section \<open>Inputs of the examples\<close>

text \<open>
  A rectangle with the finite fields \<open>x = 3 * 2 ^ 1022\<close> (that is \<^verbatim>\<open>1.5 * 2 ** 1023\<close>) and
  \<open>w = 2 ^ 1023\<close>, and with \<open>y = 100\<close> and \<open>h = 176\<close>; its centre overflows.
\<close>

definition pow2_1022 :: real where
  "pow2_1022 = 2 ^ 1022"

definition huge_node :: "number FlowNode" where
  "huge_node = (initialNodes_f64 ! 0)\<lparr>x := Fin (3 * pow2_1022), w := Fin (2 * pow2_1022)\<rparr>"

text \<open>
  The diagram after a first drag of the node \<^verbatim>\<open>appRender\<close> of the canonical layout:
  grabbed at \<open>(40, 150)\<close>, moved to \<open>(40 + 1 / 2 ^ 47, 150)\<close>, where \<^verbatim>\<open>40 + 2 ** -47\<close> is the
  next double after 40, and released.
\<close>

definition pow2_m47 :: real where
  "pow2_m47 = 1 / 2 ^ 47"

definition nudged :: "number diagram" where
  "nudged =
     handleUp_f64
       (handleMove_f64 (Fin (40 + pow2_m47), Fin 150)
          (onPointerDown_f64 (nodes diagram_init_f64 ! 0) (Fin 40, Fin 150) diagram_init_f64))"

section \<open>Properties of the selector\<close>

lemma array_get_last:
  "xs \<noteq> [] \<Longrightarrow> array_get xs (int (length xs) - 1) = Some (last xs)"
  by (cases xs rule: rev_cases) (simp_all add: array_get_def nth_append)

lemma floor_draw_in_range:
  fixes r :: real
  assumes "0 \<le> r" "r < 1" "0 < n"
  shows "0 \<le> \<lfloor>r * real n\<rfloor> \<and> \<lfloor>r * real n\<rfloor> < int n"
proof
  from assms show "0 \<le> \<lfloor>r * real n\<rfloor>" by simp
  from assms have "r * real n < real n" by simp
  then show "\<lfloor>r * real n\<rfloor> < int n" by (simp add: floor_less_iff)
qed

lemma draw_loop_returns:
  "draw_loop importers current rs = Some (v, rs') \<Longrightarrow>
     v \<noteq> current \<and> (\<exists>r \<in> set rs. v = array_get importers \<lfloor>r * real (length importers)\<rfloor>)"
  by (induction rs) (auto simp: Let_def split: if_splits)

lemma draw_loop_terminates:
  "\<exists>r \<in> set rs. array_get importers \<lfloor>r * real (length importers)\<rfloor> \<noteq> current \<Longrightarrow>
     \<exists>v rs'. draw_loop importers current rs = Some (v, rs')"
  by (induction rs) (auto simp: Let_def)

lemma call_keeps_cleared:
  "getRandomMoodImporter importers st current rs = Some (v, st', rs') \<Longrightarrow>
     \<not> isFirstCall st'"
  by (auto simp: getRandomMoodImporter_def split: if_splits option.splits)

lemma call_sequence_cleared:
  "\<not> isFirstCall st \<Longrightarrow> call_sequence importers st calls = Some st' \<Longrightarrow> \<not> isFirstCall st'"
proof (induction calls arbitrary: st)
  case Nil
  then show ?case by simp
next
  case (Cons c calls)
  obtain current rs where c: "c = (current, rs)" by (cases c)
  from Cons.prems(2) c obtain v st1 rs1 where
    step: "getRandomMoodImporter importers st current rs = Some (v, st1, rs1)" and
    rest: "call_sequence importers st1 calls = Some st'"
    by (auto split: option.splits)
  from step have "\<not> isFirstCall st1" by (rule call_keeps_cleared)
  from Cons.IH [OF this rest] show ?case .
qed

lemma array_get_in_range:
  "0 \<le> i \<Longrightarrow> i < int (length xs) \<Longrightarrow> \<exists>f \<in> set xs. array_get xs i = Some f"
  by (simp add: array_get_def nat_less_iff)

subsection \<open>Claims about the selector\<close>

text \<open>
  C1. For every catalogue of length at least 2 and every call that is not the first one,
  the value that \<^verbatim>\<open>getRandomMoodImporter(current)\<close> returns is an entry of the catalogue
  and differs from \<open>current\<close>; the module state is unchanged. The random values are those
  of \<^verbatim>\<open>Math.random\<close>, in \<open>[0, 1)\<close>. The call returns as soon as one of them selects an
  entry that differs from \<open>current\<close>.
\<close>

theorem getRandomMoodImporter_avoids_current:
  assumes "2 \<le> length importers" and "\<not> isFirstCall st"
    and "\<forall>r \<in> set rs. 0 \<le> r \<and> r < 1"
  shows "(\<forall>v st' rs'. getRandomMoodImporter importers st current rs = Some (v, st', rs') \<longrightarrow>
            v \<noteq> current \<and> (\<exists>f \<in> set importers. v = Some f) \<and> st' = st)
       \<and> ((\<exists>r \<in> set rs. array_get importers \<lfloor>r * real (length importers)\<rfloor> \<noteq> current) \<longrightarrow>
            (\<exists>v st' rs'. getRandomMoodImporter importers st current rs = Some (v, st', rs')))"
proof (intro conjI allI impI)
  fix v st' rs'
  assume ret: "getRandomMoodImporter importers st current rs = Some (v, st', rs')"
  with assms(1,2) have loop: "draw_loop importers current rs = Some (v, rs')" and same: "st' = st"
    by (auto simp: getRandomMoodImporter_def split: option.splits)
  from draw_loop_returns [OF loop] obtain r where
    neq: "v \<noteq> current" and r: "r \<in> set rs" and
    v: "v = array_get importers \<lfloor>r * real (length importers)\<rfloor>"
    by blast
  from r assms(3) have "0 \<le> r" "r < 1" by auto
  moreover from assms(1) have "0 < length importers" by (cases importers) simp_all
  ultimately have "0 \<le> \<lfloor>r * real (length importers)\<rfloor> \<and>
      \<lfloor>r * real (length importers)\<rfloor> < int (length importers)"
    by (rule floor_draw_in_range)
  with v have "\<exists>f \<in> set importers. v = Some f"
    using array_get_in_range [of "\<lfloor>r * real (length importers)\<rfloor>" importers] by simp
  with neq same show "v \<noteq> current" "\<exists>f \<in> set importers. v = Some f" "st' = st" by simp_all
next
  assume "\<exists>r \<in> set rs. array_get importers \<lfloor>r * real (length importers)\<rfloor> \<noteq> current"
  from draw_loop_terminates [OF this] obtain v rs' where
    "draw_loop importers current rs = Some (v, rs')" by blast
  with assms(1,2) show "\<exists>v st' rs'. getRandomMoodImporter importers st current rs = Some (v, st', rs')"
    by (simp add: getRandomMoodImporter_def)
qed

theorem getRandomMoodImporter_avoids_current_witness:
  "2 \<le> length allMoodImporters \<and> \<not> isFirstCall \<lparr>isFirstCall = False\<rparr>
   \<and> ((0::real) \<le> 9 / 10 \<and> (9::real) / 10 < 1 \<and> (0::real) \<le> 1 / 2 \<and> (1::real) / 2 < 1)
   \<and> getRandomMoodImporter allMoodImporters \<lparr>isFirstCall = False\<rparr> (Some Augest8) [9 / 10, 1 / 2]
       = Some (Some July20, \<lparr>isFirstCall = False\<rparr>, [])
   \<and> Some July20 \<noteq> Some Augest8 \<and> July20 \<in> set allMoodImporters"
  using getRandomMoodImporter_avoids_current [of allMoodImporters "\<lparr>isFirstCall = False\<rparr>" "[9 / 10, 1 / 2]" "Some Augest8"]
  by (simp add: getRandomMoodImporter_def allMoodImporters_def array_get_def)

text \<open>
  C2. The first call after the module is loaded returns the last entry of the catalogue,
  whatever \<open>current\<close> is, consumes no random value and clears the flag; after it, no
  sequence of calls ever leaves the flag set again, so no later call takes the first-call
  branch.
\<close>

theorem first_call_returns_last:
  assumes "isFirstCall st" and "importers \<noteq> []"
  shows "getRandomMoodImporter importers st current rs
           = Some (Some (last importers), st\<lparr>isFirstCall := False\<rparr>, rs)
       \<and> (\<forall>calls st'. call_sequence importers (st\<lparr>isFirstCall := False\<rparr>) calls = Some st'
             \<longrightarrow> \<not> isFirstCall st')"
proof
  from assms show "getRandomMoodImporter importers st current rs
           = Some (Some (last importers), st\<lparr>isFirstCall := False\<rparr>, rs)"
    by (simp add: getRandomMoodImporter_def array_get_last)
  show "\<forall>calls st'. call_sequence importers (st\<lparr>isFirstCall := False\<rparr>) calls = Some st'
             \<longrightarrow> \<not> isFirstCall st'"
    using call_sequence_cleared [of "st\<lparr>isFirstCall := False\<rparr>" importers] by auto
qed

theorem first_call_returns_last_witness:
  "isFirstCall module_init \<and> allMoodImporters \<noteq> []
   \<and> getRandomMoodImporter allMoodImporters module_init (Some July17) [1 / 2]
       = Some (Some Augest8, \<lparr>isFirstCall = False\<rparr>, [1 / 2])
   \<and> call_sequence allMoodImporters \<lparr>isFirstCall = False\<rparr> [(Some Augest8, [1 / 2])]
       = Some \<lparr>isFirstCall = False\<rparr>"
  using first_call_returns_last [of module_init allMoodImporters "Some July17" "[1 / 2]"]
  by (simp add: module_init_def allMoodImporters_def getRandomMoodImporter_def array_get_def)

text \<open>
  C5, as the claim states it, fails: with an empty catalogue the first call after loading
  the module does not fail, it returns \<^verbatim>\<open>undefined\<close>.
\<close>

theorem empty_catalog_returns_undefined_example:
  "getRandomMoodImporter ([] :: Mood list) module_init None [] = Some (None, \<lparr>isFirstCall = False\<rparr>, [])"
  by (simp add: getRandomMoodImporter_def array_get_def module_init_def)

text \<open>
  C5, amended. The selector does not validate its catalogue. With an empty catalogue
  every call, first or not, returns \<^verbatim>\<open>undefined\<close>, consumes no random value and leaves
  the flag cleared.
\<close>

theorem empty_catalog_returns_undefined:
  "getRandomMoodImporter [] st current rs = Some (None, st\<lparr>isFirstCall := False\<rparr>, rs)"
  by (cases st) (simp add: getRandomMoodImporter_def array_get_def)

text \<open>
  C9. With a catalogue of exactly one entry every call, first or not and whatever
  \<open>current\<close> is, returns that entry, consumes no random value and leaves the flag cleared.
\<close>

theorem single_entry_always_returned:
  "getRandomMoodImporter [f] st current rs = Some (Some f, st\<lparr>isFirstCall := False\<rparr>, rs)"
  by (cases st) (simp add: getRandomMoodImporter_def array_get_def)

section \<open>Properties of the link routing\<close>







lemma offsetX_value: "offsetX = 24"
  by (simp add: offsetX_def initialNodes_def vbWidth_def)


subsection \<open>Claims about the link routing\<close>


text \<open>
  C8. The path depends on the rectangles of the two nodes only: two pairs of nodes with
  the same \<open>x\<close>, \<open>y\<close>, \<open>w\<close> and \<open>h\<close> get the same path, whatever their other fields are. The
  function reads nothing but its two arguments.
\<close>

theorem buildAdaptivePath_depends_on_rectangles_only:
  assumes "x A = x A'" "y A = y A'" "w A = w A'" "h A = h A'"
    and "x B = x B'" "y B = y B'" "w B = w B'" "h B = h B'"
  shows "buildAdaptivePath A B = buildAdaptivePath A' B'"
proof -
  have c: "centerOf A = centerOf A'" "centerOf B = centerOf B'"
    using assms by (simp_all add: centerOf_def)
  have hz: "horizontal A B = horizontal A' B'"
    by (simp only: horizontal_def c)
  have s: "sourceAnchor A B = sourceAnchor A' B'"
    by (simp only: sourceAnchor_def c hz assms)
  have t: "targetAnchor A B = targetAnchor A' B'"
    by (simp only: targetAnchor_def c hz assms)
  have k: "controlDistance A B = controlDistance A' B'"
    by (simp only: controlDistance_def s t)
  show ?thesis
    by (simp only: buildAdaptivePath_def s t k)
qed

theorem buildAdaptivePath_depends_on_rectangles_only_witness:
  "x (initialNodes ! 0) = x ((initialNodes ! 0)\<lparr>node_id := decoder, title := ''renamed''\<rparr>)
   \<and> h (initialNodes ! 7) = h ((initialNodes ! 7)\<lparr>icon := stack, neon := None\<rparr>)
   \<and> buildAdaptivePath (initialNodes ! 0) (initialNodes ! 7)
     = buildAdaptivePath ((initialNodes ! 0)\<lparr>node_id := decoder, title := ''renamed''\<rparr>)
                         ((initialNodes ! 7)\<lparr>icon := stack, neon := None\<rparr>)"
  using buildAdaptivePath_depends_on_rectangles_only
    [of "initialNodes ! 0" "(initialNodes ! 0)\<lparr>node_id := decoder, title := ''renamed''\<rparr>"
        "initialNodes ! 7" "(initialNodes ! 7)\<lparr>icon := stack, neon := None\<rparr>"]
  by simp

section \<open>Properties of dragging\<close>

lemma distinct_map_nth_neq:
  assumes "distinct (map f xs)" "i < length xs" "j < length xs" "i \<noteq> j"
  shows "f (xs ! i) \<noteq> f (xs ! j)"
  using assms nth_eq_iff_index_eq [of "map f xs" i j] by simp

lemma handleMove_nodes:
  "nodes (handleMove pt st) =
     (case drag_id (draggingRef st) of
        None \<Rightarrow> nodes st
      | Some i \<Rightarrow>
          map (\<lambda>n. if node_id n = i
                    then n\<lparr>x := fst pt - offsetX - dx (draggingRef st),
                           y := snd pt - dy (draggingRef st)\<rparr>
                    else n) (nodes st))"
  by (simp add: handleMove_def Let_def split: option.splits)

lemma handleMove_draggingRef: "draggingRef (handleMove pt st) = draggingRef st"
  by (simp add: handleMove_def Let_def split: option.splits)

lemma handleMove_length: "length (nodes (handleMove pt st)) = length (nodes st)"
  by (simp add: handleMove_nodes split: option.splits)

lemma handleMove_nth:
  assumes "i < length (nodes st)"
  shows "nodes (handleMove pt st) ! i =
     (if drag_id (draggingRef st) = Some (node_id (nodes st ! i))
      then (nodes st ! i)\<lparr>x := fst pt - offsetX - dx (draggingRef st),
                            y := snd pt - dy (draggingRef st)\<rparr>
      else nodes st ! i)"
  using assms by (auto simp: handleMove_nodes split: option.splits)

lemma handleMove_idle: "drag_id (draggingRef st) = None \<Longrightarrow> handleMove pt st = st"
  by (simp add: handleMove_def)

subsection \<open>Claims about dragging\<close>

text \<open>
  C4. A pointer move during a drag changes the position of the dragged node only. The
  node list keeps its length and order, the drag reference is untouched, every node whose
  identifier is not the dragged one is unchanged, and every node keeps all its fields
  other than \<open>x\<close> and \<open>y\<close>. With unique identifiers at most one node changes.
\<close>

theorem handleMove_moves_only_dragged_node:
  "length (nodes (handleMove pt st)) = length (nodes st)
   \<and> map node_id (nodes (handleMove pt st)) = map node_id (nodes st)
   \<and> draggingRef (handleMove pt st) = draggingRef st
   \<and> (\<forall>i < length (nodes st).
        (drag_id (draggingRef st) \<noteq> Some (node_id (nodes st ! i)) \<longrightarrow>
           nodes (handleMove pt st) ! i = nodes st ! i)
        \<and> (\<exists>a b. nodes (handleMove pt st) ! i = (nodes st ! i)\<lparr>x := a, y := b\<rparr>))
   \<and> (distinct (map node_id (nodes st)) \<longrightarrow>
        (\<exists>j. \<forall>i < length (nodes st). i \<noteq> j \<longrightarrow> nodes (handleMove pt st) ! i = nodes st ! i))"
proof (intro conjI allI impI)
  show "length (nodes (handleMove pt st)) = length (nodes st)"
    by (rule handleMove_length)
  show "draggingRef (handleMove pt st) = draggingRef st"
    by (rule handleMove_draggingRef)
  show "map node_id (nodes (handleMove pt st)) = map node_id (nodes st)"
    by (simp add: handleMove_nodes comp_def if_distrib [of node_id] split: option.splits)
next
  fix i assume "i < length (nodes st)"
    and "drag_id (draggingRef st) \<noteq> Some (node_id (nodes st ! i))"
  then show "nodes (handleMove pt st) ! i = nodes st ! i"
    by (simp add: handleMove_nth)
next
  fix i assume i: "i < length (nodes st)"
  show "\<exists>a b. nodes (handleMove pt st) ! i = (nodes st ! i)\<lparr>x := a, y := b\<rparr>"
  proof (cases "drag_id (draggingRef st) = Some (node_id (nodes st ! i))")
    case True
    with i show ?thesis by (auto simp: handleMove_nth)
  next
    case False
    with i have "nodes (handleMove pt st) ! i = (nodes st ! i)\<lparr>x := x (nodes st ! i), y := y (nodes st ! i)\<rparr>"
      by (simp add: handleMove_nth)
    then show ?thesis by blast
  qed
next
  assume d: "distinct (map node_id (nodes st))"
  show "\<exists>j. \<forall>i < length (nodes st). i \<noteq> j \<longrightarrow> nodes (handleMove pt st) ! i = nodes st ! i"
  proof (cases "\<exists>j < length (nodes st). drag_id (draggingRef st) = Some (node_id (nodes st ! j))")
    case True
    then obtain j where j: "j < length (nodes st)"
      and dj: "drag_id (draggingRef st) = Some (node_id (nodes st ! j))" by blast
    have "\<forall>i < length (nodes st). i \<noteq> j \<longrightarrow> nodes (handleMove pt st) ! i = nodes st ! i"
    proof (intro allI impI)
      fix i assume i: "i < length (nodes st)" and ij: "i \<noteq> j"
      from d i j ij have "node_id (nodes st ! i) \<noteq> node_id (nodes st ! j)"
        by (rule distinct_map_nth_neq)
      with dj i show "nodes (handleMove pt st) ! i = nodes st ! i"
        by (simp add: handleMove_nth)
    qed
    then show ?thesis ..
  next
    case False
    then have "\<forall>i < length (nodes st). i \<noteq> 0 \<longrightarrow> nodes (handleMove pt st) ! i = nodes st ! i"
      by (simp add: handleMove_nth)
    then show ?thesis ..
  qed
qed

theorem handleMove_moves_only_dragged_node_witness:
  "distinct (map node_id (nodes (onPointerDown (initialNodes ! 0) (50, 150) diagram_init)))
   \<and> (1::nat) < length (nodes (onPointerDown (initialNodes ! 0) (50, 150) diagram_init))
   \<and> drag_id (draggingRef (onPointerDown (initialNodes ! 0) (50, 150) diagram_init))
         \<noteq> Some (node_id (nodes (onPointerDown (initialNodes ! 0) (50, 150) diagram_init) ! 1))
   \<and> nodes (handleMove (100, 200) (onPointerDown (initialNodes ! 0) (50, 150) diagram_init)) ! 1
         = initialNodes ! 1
   \<and> length (nodes (handleMove (100, 200) (onPointerDown (initialNodes ! 0) (50, 150) diagram_init)))
         = 8"
  using handleMove_moves_only_dragged_node
    [of "(100, 200)" "onPointerDown (initialNodes ! 0) (50, 150) diagram_init"]
  by (simp add: onPointerDown_def diagram_init_def initialNodes_def)

text \<open>
  C7. \<^verbatim>\<open>handleUp\<close> clears the drag reference whatever it held and leaves the nodes alone;
  a second \<^verbatim>\<open>handleUp\<close> changes nothing more; and after \<^verbatim>\<open>handleUp\<close> a pointer move, or any
  sequence of pointer moves, changes nothing: no node position changes.
\<close>

theorem handleUp_then_move_is_noop:
  "draggingRef (handleUp st) = \<lparr>drag_id = None, dx = 0, dy = 0\<rparr>
   \<and> nodes (handleUp st) = nodes st
   \<and> handleUp (handleUp st) = handleUp st
   \<and> handleMove pt (handleUp st) = handleUp st
   \<and> fold handleMove pts (handleUp st) = handleUp st
   \<and> nodes (fold handleMove pts (handleUp st)) = nodes st"
proof -
  have idle: "drag_id (draggingRef (handleUp st)) = None"
    by (simp add: handleUp_def)
  have one: "\<And>p. handleMove p (handleUp st) = handleUp st"
    using idle by (rule handleMove_idle)
  have many: "fold handleMove pts (handleUp st) = handleUp st"
    by (induction pts) (simp_all add: one)
  show ?thesis
    by (simp add: many one) (simp add: handleUp_def)
qed

section \<open>Properties of double arithmetic\<close>

lemma round_even_of_int [simp]: "round_even (of_int z) = z"
  by (simp add: round_even_def)

lemma round_even_near:
  assumes "\<bar>t - of_int m\<bar> < 1 / 2"
  shows "round_even t = m"
proof -
  from assms have lo: "of_int m - 1 / 2 < t" and hi: "t < of_int m + 1 / 2" by linarith+
  show ?thesis
  proof (cases "of_int m \<le> t")
    case True
    with hi have "\<lfloor>t\<rfloor> = m" by (simp add: floor_eq_iff)
    with hi show ?thesis by (simp add: round_even_def)
  next
    case False
    with lo have f: "\<lfloor>t\<rfloor> = m - 1" by (simp add: floor_eq_iff)
    with lo have "1 / 2 < t - of_int \<lfloor>t\<rfloor>" by simp
    with f show ?thesis by (simp add: round_even_def Let_def)
  qed
qed

lemma round_even_ge_floor: "\<lfloor>t\<rfloor> \<le> round_even t"
  by (simp add: round_even_def Let_def)

lemma floor_log2_eqI:
  assumes "2 powi e \<le> \<bar>v\<bar>" "\<bar>v\<bar> < 2 powi (e + 1)"
  shows "\<lfloor>log 2 \<bar>v\<bar>\<rfloor> = e"
proof -
  have pos: "0 < \<bar>v\<bar>"
    using assms(1) zero_less_power_int [of "2::real" e] by linarith
  have "(2::real) powr real_of_int e = 2 powi e"
    by (simp add: powr_real_of_int')
  moreover have "(2::real) powr (real_of_int e + 1) = 2 powi (e + 1)"
    using powr_real_of_int' [of "2::real" "e + 1"] by simp
  ultimately show ?thesis
    using assms pos floor_log_eq_powr_iff [of "\<bar>v\<bar>" 2 e] by simp
qed

lemma fl_unfold:
  assumes "v \<noteq> 0" and "e = max \<lfloor>log 2 \<bar>v\<bar>\<rfloor> (- 1022)"
    and "r = of_int (round_even (v / 2 powi (e - 52))) * 2 powi (e - 52)"
  shows "fl v = (if 2 ^ 1024 \<le> r then PosInf else if r \<le> - (2 ^ 1024) then NegInf else Fin r)"
  using assms by (simp add: fl_def Let_def)

lemma fl_eqI:
  assumes "2 powi e \<le> \<bar>v\<bar>" "\<bar>v\<bar> < 2 powi (e + 1)" "- 1022 \<le> e"
    and "\<bar>v / 2 powi (e - 52) - of_int m\<bar> < 1 / 2"
    and "\<bar>real_of_int m * 2 powi (e - 52)\<bar> < 2 ^ 1024"
  shows "fl v = Fin (of_int m * 2 powi (e - 52))"
proof -
  have "0 < \<bar>v\<bar>"
    using assms(1) zero_less_power_int [of "2::real" e] by linarith
  then have nz: "v \<noteq> 0" by simp
  have e: "max \<lfloor>log 2 \<bar>v\<bar>\<rfloor> (- 1022) = e"
    using floor_log2_eqI [OF assms(1,2)] assms(3) by simp
  have r: "round_even (v / 2 powi (e - 52)) = m"
    using assms(4) by (rule round_even_near)
  from assms(5) have "\<not> 2 ^ 1024 \<le> real_of_int m * 2 powi (e - 52)"
    "\<not> real_of_int m * 2 powi (e - 52) \<le> - (2 ^ 1024)" by linarith+
  with nz e r show ?thesis by (simp add: fl_def Let_def)
qed

lemma fl_not_NaN [simp]: "fl v \<noteq> NaN"
  by (simp add: fl_def Let_def)

lemma fl_exact:
  fixes n s :: int
  assumes n: "\<bar>n\<bar> < 2 ^ 53" and s: "- 1074 \<le> s"
    and b: "\<bar>real_of_int n * 2 powi s\<bar> < 2 ^ 1024"
  shows "fl (of_int n * 2 powi s) = Fin (of_int n * 2 powi s)"
proof (cases "n = 0")
  case True
  then show ?thesis by (simp add: fl_def)
next
  case False
  define v :: real where "v = of_int n * 2 powi s"
  define e where "e = max \<lfloor>log 2 \<bar>v\<bar>\<rfloor> (- 1022)"
  have vpos: "0 < \<bar>v\<bar>" using False by (simp add: v_def)
  have "\<bar>v\<bar> = \<bar>real_of_int n\<bar> * 2 powi s" by (simp add: v_def abs_mult)
  also have "\<dots> < 2 ^ 53 * 2 powi s"
  proof -
    from n have "\<bar>real_of_int n\<bar> < 2 ^ 53"
      by (metis of_int_abs of_int_less_numeral_power_cancel_iff)
    then show ?thesis by (simp add: mult_strict_right_mono)
  qed
  also have "\<dots> = 2 powi (53 + s)"
    by (simp add: power_int_add)
  also have "\<dots> = 2 powr real_of_int (53 + s)"
    by (rule powr_real_of_int' [symmetric]) simp_all
  finally have "log 2 \<bar>v\<bar> < real_of_int (53 + s)"
    using vpos by (simp add: log_less_iff)
  then have "\<lfloor>log 2 \<bar>v\<bar>\<rfloor> < 53 + s" by (simp add: floor_less_iff)
  with s have le: "e - 52 \<le> s" by (simp add: e_def)
  define d where "d = nat (s - (e - 52))"
  have split: "(2::real) powi s = 2 ^ d * 2 powi (e - 52)"
  proof -
    from le have "s = int d + (e - 52)" by (simp add: d_def)
    then have "(2::real) powi s = 2 powi (int d + (e - 52))" by simp
    also have "\<dots> = 2 powi (int d) * 2 powi (e - 52)" by (simp add: power_int_add)
    finally show ?thesis by simp
  qed
  have quot: "v / 2 powi (e - 52) = of_int (n * 2 ^ d)"
    by (simp add: v_def split)
  have r: "of_int (round_even (v / 2 powi (e - 52))) * 2 powi (e - 52) = v"
    unfolding quot round_even_of_int by (simp add: v_def split)
  from b have nb: "\<not> 2 ^ 1024 \<le> v" "\<not> v \<le> - (2 ^ 1024)"
    unfolding v_def by linarith+
  have "v \<noteq> 0" using vpos by simp
  from fl_unfold [OF this e_def r [symmetric]] nb have "fl v = Fin v" by simp
  then show ?thesis by (simp add: v_def)
qed

lemma fl_int:
  fixes n :: int
  assumes "\<bar>n\<bar> < 2 ^ 53"
  shows "fl (of_int n) = Fin (of_int n)"
proof -
  have "\<bar>real_of_int n\<bar> < 2 ^ 53"
    using assms by (metis of_int_abs of_int_less_numeral_power_cancel_iff)
  also have "\<dots> < (2::real) ^ 1024" by simp
  finally have "\<bar>real_of_int n * 2 powi 0\<bar> < 2 ^ 1024" by simp
  from fl_exact [OF assms _ this] show ?thesis by simp
qed

lemma fl_overflow:
  assumes "2 ^ 1024 \<le> v"
  shows "fl v = PosInf"
proof -
  have vpos: "0 < v"
    using assms zero_less_power [of "2::real" 1024] by linarith
  define e0 where "e0 = \<lfloor>log 2 \<bar>v\<bar>\<rfloor>"
  have "(2::real) ^ 1024 = 2 powr real_of_int 1024" by simp
  with assms vpos have "real_of_int 1024 \<le> log 2 \<bar>v\<bar>"
    by (simp add: le_log_iff)
  then have e0: "1024 \<le> e0" unfolding e0_def by (simp add: le_floor_iff)
  have "real_of_int e0 \<le> log 2 \<bar>v\<bar>" by (simp add: e0_def)
  with vpos have "2 powr real_of_int e0 \<le> \<bar>v\<bar>" by (simp add: le_log_iff)
  then have lo: "2 powi e0 \<le> v" using vpos by (simp add: powr_real_of_int')
  define q :: real where "q = 2 powi (e0 - 52)"
  have qpos: "0 < q" by (simp add: q_def)
  have "(2::real) powi e0 = 2 ^ 52 * q"
    by (simp add: q_def power_int_diff)
  with lo qpos have "2 ^ 52 \<le> v / q" by (simp add: pos_le_divide_eq)
  then have "(2::int) ^ 52 \<le> \<lfloor>v / q\<rfloor>" by (simp add: le_floor_iff)
  also have "\<dots> \<le> round_even (v / q)" by (rule round_even_ge_floor)
  finally have "(2::real) ^ 52 \<le> of_int (round_even (v / q))"
    by (metis of_int_numeral_le_iff of_int_le_numeral_power_cancel_iff numeral_power_le_of_int_cancel_iff)
  with qpos have "2 ^ 52 * q \<le> of_int (round_even (v / q)) * q" by simp
  also have "(2::real) ^ 52 * q = 2 powi e0" by (simp add: q_def power_int_diff)
  finally have "2 powi e0 \<le> of_int (round_even (v / q)) * q" .
  moreover have "(2::real) ^ 1024 \<le> 2 powi e0"
  proof -
    have "(2::real) powi 1024 \<le> 2 powi e0" using e0 by (intro power_int_increasing) simp_all
    then show ?thesis by simp
  qed
  ultimately have pow2_1022: "2 ^ 1024 \<le> of_int (round_even (v / q)) * q" by linarith
  have m: "e0 = max \<lfloor>log 2 \<bar>v\<bar>\<rfloor> (- 1022)" using e0 by (simp add: e0_def)
  have "v \<noteq> 0" using vpos by simp
  from fl_unfold [OF this m refl] pow2_1022 show ?thesis by (simp add: q_def)
qed

lemma fl_numeral [simp]: "numeral k < (2::int) ^ 53 \<Longrightarrow> fl (numeral k) = Fin (numeral k)"
  using fl_int [of "numeral k"] by simp

lemma fl_neg_numeral [simp]:
  "numeral k < (2::int) ^ 53 \<Longrightarrow> fl (- numeral k) = Fin (- numeral k)"
  using fl_int [of "- numeral k"] by simp

lemma fl_zero [simp]: "fl 0 = Fin 0"
  by (simp add: fl_def)

lemma fl_one [simp]: "fl 1 = Fin 1"
  using fl_int [of 1] by simp

lemma offsetX_f64_value: "offsetX_f64 = Fin 24"
  by (simp add: offsetX_f64_def initialNodes_f64_def initialNodes_def node_f64_def vbWidth_f64_def)

lemma node0_fields:
  "node_id (initialNodes_f64 ! 0) = appRender"
  "x (initialNodes_f64 ! 0) = Fin 10" "y (initialNodes_f64 ! 0) = Fin 100"
  "w (initialNodes_f64 ! 0) = Fin 156" "h (initialNodes_f64 ! 0) = Fin 176"
  by (simp_all add: initialNodes_f64_def initialNodes_def node_f64_def)

lemma length_initialNodes_f64: "length initialNodes_f64 = 8"
  by (simp add: initialNodes_f64_def initialNodes_def)

lemma is_Fin_plusD: "is_Fin (a + b) \<Longrightarrow> is_Fin a \<and> is_Fin b"
  by (cases a; cases b) simp_all

lemma minus_not_NaN: "is_Fin a \<Longrightarrow> is_Fin b \<Longrightarrow> a - b \<noteq> NaN"
  by (cases a; cases b) simp_all

lemma hypot_not_NaN: "a \<noteq> NaN \<Longrightarrow> b \<noteq> NaN \<Longrightarrow> Math_hypot a b \<noteq> NaN"
  by (cases a; cases b) simp_all

lemma third_not_NaN: "a \<noteq> NaN \<Longrightarrow> a / Fin 3 \<noteq> NaN"
  by (cases a) simp_all

lemma clamp_f64:
  assumes "v \<noteq> NaN"
  shows "\<exists>kk. Math_min (Fin 120) (Math_max (Fin 40) v) = Fin kk \<and> 40 \<le> kk \<and> kk \<le> 120"
  using assms by (cases v) auto

lemma times_not_NaN: "is_Fin a \<Longrightarrow> is_Fin b \<Longrightarrow> a * b \<noteq> NaN"
  by (cases a; cases b) simp_all

lemma plus_not_NaN: "is_Fin a \<Longrightarrow> b \<noteq> NaN \<Longrightarrow> a + b \<noteq> NaN"
  by (cases a; cases b) simp_all

lemma control_point_not_NaN: "is_Fin s \<Longrightarrow> is_Fin n \<Longrightarrow> s + n * Fin kk \<noteq> NaN"
  by (rule plus_not_NaN) (simp_all add: times_not_NaN)

lemma minus_self: "is_Fin a \<Longrightarrow> a - a = Fin 0"
  by (cases a) simp_all

lemma anchors_f64_cases:
  "(sourceAnchor_f64 A B = (x A + w A, snd (centerOf_f64 A), Fin 1, Fin 0) \<and>
    targetAnchor_f64 A B = (x B, snd (centerOf_f64 B), Fin (- 1), Fin 0)) \<or>
   (sourceAnchor_f64 A B = (x A, snd (centerOf_f64 A), Fin (- 1), Fin 0) \<and>
    targetAnchor_f64 A B = (x B + w B, snd (centerOf_f64 B), Fin 1, Fin 0)) \<or>
   (sourceAnchor_f64 A B = (fst (centerOf_f64 A), y A + h A, Fin 0, Fin 1) \<and>
    targetAnchor_f64 A B = (fst (centerOf_f64 B), y B, Fin 0, Fin (- 1))) \<or>
   (sourceAnchor_f64 A B = (fst (centerOf_f64 A), y A, Fin 0, Fin (- 1)) \<and>
    targetAnchor_f64 A B = (fst (centerOf_f64 B), y B + h B, Fin 0, Fin 1))"
  by (simp add: sourceAnchor_f64_def targetAnchor_f64_def Let_def split: prod.splits)

lemma anchors_f64_finite:
  assumes "is_Fin (x A + w A / Fin 2)" "is_Fin (y A + h A / Fin 2)"
    "is_Fin (x A + w A)" "is_Fin (y A + h A)"
    and "is_Fin (x B + w B / Fin 2)" "is_Fin (y B + h B / Fin 2)"
    "is_Fin (x B + w B)" "is_Fin (y B + h B)"
  obtains sx sy sNx sNy txa tya tNx tNy where
    "sourceAnchor_f64 A B = (sx, sy, sNx, sNy)" "targetAnchor_f64 A B = (txa, tya, tNx, tNy)"
    "is_Fin sx" "is_Fin sy" "is_Fin sNx" "is_Fin sNy"
    "is_Fin txa" "is_Fin tya" "is_Fin tNx" "is_Fin tNy"
proof -
  from assms have f: "is_Fin (x A)" "is_Fin (y A)" "is_Fin (x B)" "is_Fin (y B)"
    by (auto dest: is_Fin_plusD)
  from assms have c: "is_Fin (fst (centerOf_f64 A))" "is_Fin (snd (centerOf_f64 A))"
    "is_Fin (fst (centerOf_f64 B))" "is_Fin (snd (centerOf_f64 B))"
    by (simp_all add: centerOf_f64_def)
  from anchors_f64_cases [of A B] assms f c that show thesis
    by (elim disjE conjE) simp_all
qed

subsection \<open>Claim C6: degenerate geometry\<close>

lemma huge_fields:
  "x huge_node = Fin (3 * pow2_1022)" "w huge_node = Fin (2 * pow2_1022)"
  "y huge_node = Fin 100" "h huge_node = Fin 176"
  by (simp_all add: huge_node_def initialNodes_f64_def initialNodes_def node_f64_def)

lemma pow2_1022_pos: "0 < pow2_1022"
  by (simp add: pow2_1022_def)

lemma fl_pow2_1022: "fl pow2_1022 = Fin pow2_1022"
  using fl_exact [of 1 1022] by (simp add: pow2_1022_def)

lemma fl_four_pow2_1022: "fl (4 * pow2_1022) = PosInf"
  by (rule fl_overflow) (simp add: pow2_1022_def)

lemma huge_center: "centerOf_f64 huge_node = (PosInf, Fin 188)"
  using pow2_1022_pos by (simp add: centerOf_f64_def huge_fields fl_pow2_1022 fl_four_pow2_1022)

lemma huge_not_horizontal: "\<not> horizontal_f64 huge_node huge_node"
  by (simp add: horizontal_f64_def huge_center)

lemma huge_source: "sourceAnchor_f64 huge_node huge_node = (PosInf, Fin 276, Fin 0, Fin 1)"
  by (simp add: sourceAnchor_f64_def huge_not_horizontal huge_center huge_fields)

lemma huge_target: "targetAnchor_f64 huge_node huge_node = (PosInf, Fin 100, Fin 0, Fin (- 1))"
  by (simp add: targetAnchor_f64_def huge_not_horizontal huge_center huge_fields)

lemma huge_k: "controlDistance_f64 huge_node huge_node = NaN"
  by (simp add: controlDistance_f64_def huge_source huge_target)

text \<open>
  C6, as the claim states it, fails. The rectangle with \<open>x = 3 * 2 ^ 1022\<close>, \<open>w = 2 ^ 1023\<close>,
  \<open>y = 100\<close> and \<open>h = 176\<close> has finite fields, but its centre \<open>x + w / 2\<close> overflows to
  infinity. Linked to itself, so that the centres coincide, it gets \<open>dx = NaN\<close>, the
  connection is classified as vertical, \<open>k\<close> is \<^verbatim>\<open>NaN\<close> and not in \<open>[40, 120]\<close>, and the path
  is \<^verbatim>\<open>M Infinity 276 C NaN NaN, NaN NaN, Infinity 100\<close>.
\<close>

theorem buildAdaptivePath_f64_overflow_gives_NaN:
  "x huge_node = Fin (3 * pow2_1022) \<and> w huge_node = Fin (2 * pow2_1022)
   \<and> y huge_node = Fin 100 \<and> h huge_node = Fin 176
   \<and> centerOf_f64 huge_node = (PosInf, Fin 188)
   \<and> \<not> horizontal_f64 huge_node huge_node
   \<and> controlDistance_f64 huge_node huge_node = NaN
   \<and> buildAdaptivePath_f64 huge_node huge_node
       = M_C PosInf (Fin 276) NaN NaN NaN NaN PosInf (Fin 100)"
  by (simp add: huge_fields huge_center huge_not_horizontal huge_k buildAdaptivePath_f64_def
      huge_source huge_target)

text \<open>
  C6, amended. For rectangles \<open>A\<close> and \<open>B\<close> whose sums \<open>x + w / 2\<close>, \<open>y + h / 2\<close>, \<open>x + w\<close> and
  \<open>y + h\<close> are finite doubles, which needs finite fields and excludes overflow, the path
  has no \<^verbatim>\<open>NaN\<close>: the control distance \<open>k\<close> is a finite number in \<open>[40, 120]\<close>, none of the
  eight numbers of the path is \<^verbatim>\<open>NaN\<close>, a link of length zero has \<open>k = 40\<close>, and when the
  two centres coincide the connection is classified as horizontal, leaving the right edge
  of \<open>A\<close> and entering the left edge of \<open>B\<close>. Degenerate rectangles are included.
\<close>

theorem buildAdaptivePath_f64_without_overflow:
  assumes "is_Fin (x A + w A / Fin 2)" "is_Fin (y A + h A / Fin 2)"
    "is_Fin (x A + w A)" "is_Fin (y A + h A)"
    and "is_Fin (x B + w B / Fin 2)" "is_Fin (y B + h B / Fin 2)"
    "is_Fin (x B + w B)" "is_Fin (y B + h B)"
  shows "(\<exists>kk. controlDistance_f64 A B = Fin kk \<and> 40 \<le> kk \<and> kk \<le> 120)
    \<and> NaN \<notin> set (path_numbers (buildAdaptivePath_f64 A B))
    \<and> (centerOf_f64 A = centerOf_f64 B \<longrightarrow>
          horizontal_f64 A B
          \<and> sourceAnchor_f64 A B = (x A + w A, y A + h A / Fin 2, Fin 1, Fin 0)
          \<and> targetAnchor_f64 A B = (x B, y B + h B / Fin 2, Fin (- 1), Fin 0))
    \<and> (fst (sourceAnchor_f64 A B) = fst (targetAnchor_f64 A B)
          \<and> fst (snd (sourceAnchor_f64 A B)) = fst (snd (targetAnchor_f64 A B)) \<longrightarrow>
        controlDistance_f64 A B = Fin 40)"
proof -
  from anchors_f64_finite [OF assms] obtain sx sy sNx sNy txa tya tNx tNy where
    s: "sourceAnchor_f64 A B = (sx, sy, sNx, sNy)" and
    t: "targetAnchor_f64 A B = (txa, tya, tNx, tNy)" and
    fin: "is_Fin sx" "is_Fin sy" "is_Fin sNx" "is_Fin sNy"
         "is_Fin txa" "is_Fin tya" "is_Fin tNx" "is_Fin tNy"
    by blast
  have kdef: "controlDistance_f64 A B =
      Math_min (Fin 120) (Math_max (Fin 40) (Math_hypot (txa - sx) (tya - sy) / Fin 3))"
    by (simp add: controlDistance_f64_def s t)
  have "Math_hypot (txa - sx) (tya - sy) / Fin 3 \<noteq> NaN"
    using fin by (intro third_not_NaN hypot_not_NaN minus_not_NaN)
  from clamp_f64 [OF this] kdef obtain kk where
    k: "controlDistance_f64 A B = Fin kk" and kb: "40 \<le> kk" "kk \<le> 120"
    by auto
  have c1: "sx + sNx * Fin kk \<noteq> NaN" "sy + sNy * Fin kk \<noteq> NaN"
    "txa + tNx * Fin kk \<noteq> NaN" "tya + tNy * Fin kk \<noteq> NaN"
    using fin by (simp_all add: control_point_not_NaN)
  have ends: "sx \<noteq> NaN" "sy \<noteq> NaN" "txa \<noteq> NaN" "tya \<noteq> NaN"
    using fin by auto
  have path: "NaN \<notin> set (path_numbers (buildAdaptivePath_f64 A B))"
    using c1 ends by (auto simp: buildAdaptivePath_f64_def s t k Let_def)
  have tie: "centerOf_f64 A = centerOf_f64 B \<longrightarrow>
          horizontal_f64 A B
          \<and> sourceAnchor_f64 A B = (x A + w A, y A + h A / Fin 2, Fin 1, Fin 0)
          \<and> targetAnchor_f64 A B = (x B, y B + h B / Fin 2, Fin (- 1), Fin 0)"
  proof
    assume same: "centerOf_f64 A = centerOf_f64 B"
    obtain cx cy where c: "centerOf_f64 B = (cx, cy)" by (cases "centerOf_f64 B")
    with assms(5,6) have "is_Fin cx" "is_Fin cy" by (simp_all add: centerOf_f64_def)
    then have d: "cx - cx = Fin 0" "cy - cy = Fin 0" by (simp_all add: minus_self)
    have hz: "horizontal_f64 A B"
      by (simp add: horizontal_f64_def same c d)
    have cyA: "y A + h A / Fin 2 = cy" and cyB: "y B + h B / Fin 2 = cy"
      using same c by (simp_all add: centerOf_f64_def)
    show "horizontal_f64 A B
          \<and> sourceAnchor_f64 A B = (x A + w A, y A + h A / Fin 2, Fin 1, Fin 0)
          \<and> targetAnchor_f64 A B = (x B, y B + h B / Fin 2, Fin (- 1), Fin 0)"
      using hz by (simp add: sourceAnchor_f64_def targetAnchor_f64_def same c d cyA cyB)
  qed
  have zero: "fst (sourceAnchor_f64 A B) = fst (targetAnchor_f64 A B)
          \<and> fst (snd (sourceAnchor_f64 A B)) = fst (snd (targetAnchor_f64 A B)) \<longrightarrow>
        controlDistance_f64 A B = Fin 40"
  proof
    assume "fst (sourceAnchor_f64 A B) = fst (targetAnchor_f64 A B)
          \<and> fst (snd (sourceAnchor_f64 A B)) = fst (snd (targetAnchor_f64 A B))"
    with s t have "txa = sx" "tya = sy" by simp_all
    with fin show "controlDistance_f64 A B = Fin 40"
      by (simp add: kdef minus_self)
  qed
  from k kb path tie zero show ?thesis by blast
qed

theorem buildAdaptivePath_f64_without_overflow_witness:
  "is_Fin (x (initialNodes_f64 ! 0) + w (initialNodes_f64 ! 0) / Fin 2)
   \<and> is_Fin (y (initialNodes_f64 ! 0) + h (initialNodes_f64 ! 0) / Fin 2)
   \<and> is_Fin (x (initialNodes_f64 ! 0) + w (initialNodes_f64 ! 0))
   \<and> is_Fin (y (initialNodes_f64 ! 0) + h (initialNodes_f64 ! 0))
   \<and> centerOf_f64 (initialNodes_f64 ! 0) = centerOf_f64 (initialNodes_f64 ! 0)
   \<and> horizontal_f64 (initialNodes_f64 ! 0) (initialNodes_f64 ! 0)
   \<and> sourceAnchor_f64 (initialNodes_f64 ! 0) (initialNodes_f64 ! 0)
        = (Fin 166, Fin 188, Fin 1, Fin 0)
   \<and> targetAnchor_f64 (initialNodes_f64 ! 0) (initialNodes_f64 ! 0)
        = (Fin 10, Fin 188, Fin (- 1), Fin 0)
   \<and> controlDistance_f64 (initialNodes_f64 ! 0) (initialNodes_f64 ! 0) = Fin 52
   \<and> NaN \<notin> set (path_numbers
                    (buildAdaptivePath_f64 (initialNodes_f64 ! 0) (initialNodes_f64 ! 0)))
   \<and> sourceAnchor_f64 ((initialNodes_f64 ! 0)\<lparr>x := Fin 0, w := Fin 100\<rparr>)
                          ((initialNodes_f64 ! 0)\<lparr>x := Fin 100\<rparr>)
        = (Fin 100, Fin 188, Fin 1, Fin 0)
   \<and> targetAnchor_f64 ((initialNodes_f64 ! 0)\<lparr>x := Fin 0, w := Fin 100\<rparr>)
                          ((initialNodes_f64 ! 0)\<lparr>x := Fin 100\<rparr>)
        = (Fin 100, Fin 188, Fin (- 1), Fin 0)
   \<and> controlDistance_f64 ((initialNodes_f64 ! 0)\<lparr>x := Fin 0, w := Fin 100\<rparr>)
                             ((initialNodes_f64 ! 0)\<lparr>x := Fin 100\<rparr>)
        = Fin 40"
  using buildAdaptivePath_f64_without_overflow [of "initialNodes_f64 ! 0" "initialNodes_f64 ! 0"]
    buildAdaptivePath_f64_without_overflow
      [of "(initialNodes_f64 ! 0)\<lparr>x := Fin 0, w := Fin 100\<rparr>"
          "(initialNodes_f64 ! 0)\<lparr>x := Fin 100\<rparr>"]
  by (simp add: node0_fields centerOf_f64_def controlDistance_f64_def horizontal_f64_def
      sourceAnchor_f64_def targetAnchor_f64_def)

subsection \<open>Claim C10: dragging as a translation\<close>

lemma handleMove_f64_nodes:
  "nodes (handleMove_f64 pt st) =
     (case drag_id (draggingRef st) of
        None \<Rightarrow> nodes st
      | Some i \<Rightarrow>
          map (\<lambda>n. if node_id n = i
                    then n\<lparr>x := fst pt - offsetX_f64 - dx (draggingRef st),
                           y := snd pt - dy (draggingRef st)\<rparr>
                    else n) (nodes st))"
  by (simp add: handleMove_f64_def Let_def split: option.splits)

lemma handleMove_f64_length: "length (nodes (handleMove_f64 pt st)) = length (nodes st)"
  by (simp add: handleMove_f64_nodes split: option.splits)

lemma handleMove_f64_nth:
  assumes "i < length (nodes st)"
  shows "nodes (handleMove_f64 pt st) ! i =
     (if drag_id (draggingRef st) = Some (node_id (nodes st ! i))
      then (nodes st ! i)\<lparr>x := fst pt - offsetX_f64 - dx (draggingRef st),
                            y := snd pt - dy (draggingRef st)\<rparr>
      else nodes st ! i)"
  using assms by (auto simp: handleMove_f64_nodes split: option.splits)

lemma diagram_init_f64_simps:
  "nodes diagram_init_f64 = initialNodes_f64"
  "draggingRef diagram_init_f64 = \<lparr>drag_id = None, dx = Fin 0, dy = Fin 0\<rparr>"
  by (simp_all add: diagram_init_f64_def)

lemma onPointerDown_f64_simps:
  "nodes (onPointerDown_f64 n start st) = nodes st"
  "draggingRef (onPointerDown_f64 n start st) =
     \<lparr>drag_id = Some (node_id n), dx = fst start - (x n + offsetX_f64), dy = snd start - y n\<rparr>"
  by (simp_all add: onPointerDown_f64_def)

lemma handleUp_f64_simps:
  "nodes (handleUp_f64 st) = nodes st"
  "draggingRef (handleUp_f64 st) = \<lparr>drag_id = None, dx = Fin 0, dy = Fin 0\<rparr>"
  by (simp_all add: handleUp_f64_def)

lemma fl_grid47:
  fixes n :: int
  assumes "\<bar>n\<bar> < 2 ^ 53"
  shows "fl (of_int n * pow2_m47) = Fin (of_int n * pow2_m47)"
proof -
  have "\<bar>real_of_int n\<bar> < 2 ^ 53"
    using assms by (metis of_int_abs of_int_less_numeral_power_cancel_iff)
  then have "\<bar>real_of_int n * 2 powi (- 47)\<bar> < 2 ^ 1024"
    by (simp add: abs_mult power_int_minus field_simps)
  from fl_exact [OF assms _ this] show ?thesis
    by (simp add: pow2_m47_def power_int_minus field_simps)
qed

lemma fl_136_minus_pow2_m47: "fl (136 - pow2_m47) = Fin 136"
  using fl_eqI [of 7 "136 - pow2_m47" 4785074604081152]
  by (simp add: pow2_m47_def power_int_minus)

lemma pow2_m47_sums:
  "fl (16 + pow2_m47) = Fin (16 + pow2_m47)" "fl (10 + pow2_m47) = Fin (10 + pow2_m47)"
  "fl (34 + pow2_m47) = Fin (34 + pow2_m47)"
  using fl_grid47 [of "16 * 2 ^ 47 + 1"] fl_grid47 [of "10 * 2 ^ 47 + 1"]
    fl_grid47 [of "34 * 2 ^ 47 + 1"]
  by (simp_all add: pow2_m47_def field_simps)

lemma nudged_node:
  "nodes nudged ! 0 = (initialNodes_f64 ! 0)\<lparr>x := Fin (10 + pow2_m47), y := Fin 100\<rparr>"
  "length (nodes nudged) = 8"
  by (simp_all add: nudged_def handleUp_f64_simps handleMove_f64_nth handleMove_f64_length
      onPointerDown_f64_simps diagram_init_f64_simps length_initialNodes_f64 node0_fields
      offsetX_f64_value pow2_m47_sums)

lemma grid_bound:
  fixes n s :: int
  assumes "\<bar>n\<bar> < 2 ^ 53" "s \<le> 0"
  shows "\<bar>real_of_int n * 2 powi s\<bar> < 2 ^ 1024"
proof -
  have "\<bar>real_of_int n\<bar> < 2 ^ 53"
    using assms(1) by (metis of_int_abs of_int_less_numeral_power_cancel_iff)
  moreover have "(2::real) powi s \<le> 1"
    using assms(2) power_int_increasing [of s 0 "2::real"] by simp
  moreover have "0 < (2::real) powi s" by simp
  ultimately have "\<bar>real_of_int n\<bar> * 2 powi s < 2 ^ 53 * 1"
    by (intro mult_less_le_imp_less) simp_all
  also have "\<dots> < (2::real) ^ 1024" by simp
  finally show ?thesis by (simp add: abs_mult)
qed

lemma grid_minus:
  fixes a b s :: int
  assumes "\<bar>a - b\<bar> < 2 ^ 53" "- 1074 \<le> s" "s \<le> 0"
  shows "Fin (of_int a * 2 powi s) - Fin (of_int b * 2 powi s) = Fin (of_int (a - b) * 2 powi s)"
proof -
  have "real_of_int a * 2 powi s - real_of_int b * 2 powi s = real_of_int (a - b) * 2 powi s"
    by (simp add: left_diff_distrib)
  moreover have "fl (real_of_int (a - b) * 2 powi s) = Fin (of_int (a - b) * 2 powi s)"
    using assms by (intro fl_exact grid_bound)
  ultimately show ?thesis by simp
qed

lemma grid_plus:
  fixes a b s :: int
  assumes "\<bar>a + b\<bar> < 2 ^ 53" "- 1074 \<le> s" "s \<le> 0"
  shows "Fin (of_int a * 2 powi s) + Fin (of_int b * 2 powi s) = Fin (of_int (a + b) * 2 powi s)"
proof -
  have "real_of_int a * 2 powi s + real_of_int b * 2 powi s = real_of_int (a + b) * 2 powi s"
    by (simp add: distrib_right)
  moreover have "fl (real_of_int (a + b) * 2 powi s) = Fin (of_int (a + b) * 2 powi s)"
    using assms by (intro fl_exact grid_bound)
  ultimately show ?thesis by simp
qed

lemma offset_on_grid:
  fixes s :: int
  assumes "- 45 \<le> s" "s \<le> 0"
  obtains c :: int where "offsetX_f64 = Fin (of_int c * 2 powi s)" "0 \<le> c" "c \<le> 2 ^ 50"
proof
  define c :: int where "c = 24 * 2 ^ nat (- s)"
  have "(2::real) ^ nat (- s) = 2 powi (- s)"
    using assms(2) by (simp add: power_int_def)
  then have "(2::real) ^ nat (- s) * 2 powi s = 1"
    by (simp add: power_int_minus)
  then have "real_of_int c * 2 powi s = 24" by (simp add: c_def)
  then show "offsetX_f64 = Fin (of_int c * 2 powi s)" by (simp add: offsetX_f64_value)
  show "0 \<le> c" by (simp add: c_def)
  have "(2::int) ^ nat (- s) \<le> 2 ^ 45"
    using assms(1) by (intro power_increasing) simp_all
  then have "c \<le> 24 * 2 ^ 45" by (simp add: c_def)
  also have "\<dots> \<le> (2::int) ^ 50" by simp
  finally show "c \<le> 2 ^ 50" .
qed

lemma drag_f64_on_grid:
  fixes a b px py qx qy s :: int
  assumes s: "- 45 \<le> s" "s \<le> 0"
    and n: "x n = Fin (of_int a * 2 powi s)" "y n = Fin (of_int b * 2 powi s)"
    and bd: "\<bar>a\<bar> \<le> 2 ^ 50" "\<bar>b\<bar> \<le> 2 ^ 50" "\<bar>px\<bar> \<le> 2 ^ 50" "\<bar>py\<bar> \<le> 2 ^ 50"
      "\<bar>qx\<bar> \<le> 2 ^ 50" "\<bar>qy\<bar> \<le> 2 ^ 50"
  shows "Fin (of_int qx * 2 powi s) - offsetX_f64
           - (Fin (of_int px * 2 powi s) - (x n + offsetX_f64))
         = Fin (of_int (a + (qx - px)) * 2 powi s)"
    and "Fin (of_int qy * 2 powi s) - (Fin (of_int py * 2 powi s) - y n)
         = Fin (of_int (b + (qy - py)) * 2 powi s)"
proof -
  from offset_on_grid [OF s] obtain c :: int where
    c: "offsetX_f64 = Fin (of_int c * 2 powi s)" and cb: "0 \<le> c" "c \<le> 2 ^ 50"
    by blast
  have s': "- 1074 \<le> s" using s by simp
  have e50: "(2::int) ^ 50 = 1125899906842624" and e53: "(2::int) ^ 53 = 9007199254740992"
    by simp_all
  note bd = bd [unfolded e50] and cb = cb [unfolded e50]
  have 1: "x n + offsetX_f64 = Fin (of_int (a + c) * 2 powi s)"
    unfolding n c using bd cb by (intro grid_plus s' s) (unfold e53, linarith)
  have 2: "Fin (of_int px * 2 powi s) - Fin (of_int (a + c) * 2 powi s)
             = Fin (of_int (px - (a + c)) * 2 powi s)"
    using bd cb by (intro grid_minus s' s) (unfold e53, linarith)
  have 3: "Fin (of_int qx * 2 powi s) - offsetX_f64 = Fin (of_int (qx - c) * 2 powi s)"
    unfolding c using bd cb by (intro grid_minus s' s) (unfold e53, linarith)
  have 4: "Fin (of_int (qx - c) * 2 powi s) - Fin (of_int (px - (a + c)) * 2 powi s)
             = Fin (of_int ((qx - c) - (px - (a + c))) * 2 powi s)"
    using bd cb by (intro grid_minus s' s) (unfold e53, linarith)
  have "(qx - c) - (px - (a + c)) = a + (qx - px)" by simp
  with 1 2 3 4 show "Fin (of_int qx * 2 powi s) - offsetX_f64
           - (Fin (of_int px * 2 powi s) - (x n + offsetX_f64))
         = Fin (of_int (a + (qx - px)) * 2 powi s)"
    by simp
  have 5: "Fin (of_int py * 2 powi s) - y n = Fin (of_int (py - b) * 2 powi s)"
    unfolding n using bd by (intro grid_minus s' s) (unfold e53, linarith)
  have 6: "Fin (of_int qy * 2 powi s) - Fin (of_int (py - b) * 2 powi s)
             = Fin (of_int (qy - (py - b)) * 2 powi s)"
    using bd by (intro grid_minus s' s) (unfold e53, linarith)
  have "qy - (py - b) = b + (qy - py)" by simp
  with 5 6 show "Fin (of_int qy * 2 powi s) - (Fin (of_int py * 2 powi s) - y n)
         = Fin (of_int (b + (qy - py)) * 2 powi s)"
    by simp
qed

lemma round_even_error: "\<bar>of_int (round_even t) - t\<bar> \<le> 1 / 2"
proof -
  have "of_int \<lfloor>t\<rfloor> \<le> t" "t < of_int \<lfloor>t\<rfloor> + 1" by linarith+
  then show ?thesis
    by (auto simp: round_even_def Let_def)
qed

lemma fl_error:
  assumes B: "\<bar>v\<bar> \<le> B" "1 \<le> B" "B \<le> 2 ^ 1000"
  shows "\<exists>r. fl v = Fin r \<and> \<bar>r - v\<bar> \<le> B / 2 ^ 52"
proof (cases "v = 0")
  case True
  with B show ?thesis by (simp add: fl_def)
next
  case False
  define e0 where "e0 = \<lfloor>log 2 \<bar>v\<bar>\<rfloor>"
  define e where "e = max e0 (- 1022)"
  define q :: real where "q = 2 powi (e - 52)"
  define r where "r = of_int (round_even (v / q)) * q"
  have qpos: "0 < q" by (simp add: q_def)
  have vpos: "0 < \<bar>v\<bar>" using False by simp
  have "\<bar>r - v\<bar> = \<bar>of_int (round_even (v / q)) - v / q\<bar> * q"
  proof -
    have "r - v = (of_int (round_even (v / q)) - v / q) * q"
      using qpos by (simp add: r_def field_simps)
    then show ?thesis using qpos by (simp add: abs_mult)
  qed
  also have "\<dots> \<le> 1 / 2 * q"
    using qpos round_even_error [of "v / q"] by (intro mult_right_mono) simp_all
  finally have err: "\<bar>r - v\<bar> \<le> q / 2" by simp
  have qB: "q \<le> B / 2 ^ 52"
  proof (cases "- 1022 \<le> e0")
    case True
    then have "e = e0" by (simp add: e_def)
    have "real_of_int e0 \<le> log 2 \<bar>v\<bar>" by (simp add: e0_def)
    with vpos have "2 powr real_of_int e0 \<le> \<bar>v\<bar>" by (simp add: le_log_iff)
    then have "2 powi e0 \<le> \<bar>v\<bar>" by (simp add: powr_real_of_int')
    moreover have "q = 2 powi e0 / 2 ^ 52"
      by (simp add: q_def \<open>e = e0\<close> power_int_diff)
    ultimately have "q \<le> \<bar>v\<bar> / 2 ^ 52" by (simp add: divide_right_mono)
    also have "\<dots> \<le> B / 2 ^ 52" using B(1) by (simp add: divide_right_mono)
    finally show ?thesis .
  next
    case False
    then have "e = - 1022" by (simp add: e_def)
    then have "q = 2 powi (- 1074)" by (simp add: q_def)
    also have "\<dots> \<le> 1 / 2 ^ 52"
      by (simp add: power_int_minus field_simps)
    also have "\<dots> \<le> B / 2 ^ 52" using B(2) by (simp add: divide_right_mono)
    finally show ?thesis .
  qed
  from err qB have rv: "\<bar>r - v\<bar> \<le> B / 2 ^ 52" by linarith
  have "B / 2 ^ 52 \<le> B" using B(2) by (simp add: field_simps)
  with rv B(1) have "\<bar>r\<bar> \<le> 2 * B" by linarith
  also have "\<dots> \<le> 2 * 2 ^ 1000" using B(3) by simp
  also have "\<dots> < (2::real) ^ 1024" by simp
  finally have small: "\<not> 2 ^ 1024 \<le> r" "\<not> r \<le> - (2 ^ 1024)" by linarith+
  have "fl v = Fin r"
    using fl_unfold [OF False, of e r] small
    by (simp add: e_def e0_def r_def q_def)
  with rv show ?thesis by blast
qed

lemma minus_error:
  assumes "\<bar>a - b\<bar> \<le> B" "1 \<le> B" "B \<le> 2 ^ 1000"
  obtains r where "Fin a - Fin b = Fin r" "\<bar>r - (a - b)\<bar> \<le> B / 2 ^ 52"
  using fl_error [OF assms] by auto

lemma plus_error:
  assumes "\<bar>a + b\<bar> \<le> B" "1 \<le> B" "B \<le> 2 ^ 1000"
  obtains r where "Fin a + Fin b = Fin r" "\<bar>r - (a + b)\<bar> \<le> B / 2 ^ 52"
  using fl_error [OF assms] by auto

lemma drag_f64_error:
  fixes a b px py qx qy M :: real
  assumes n: "x n = Fin a" "y n = Fin b"
    and M: "24 \<le> M" "M \<le> 2 ^ 990"
    and bd: "\<bar>a\<bar> \<le> M" "\<bar>b\<bar> \<le> M" "\<bar>px\<bar> \<le> M" "\<bar>py\<bar> \<le> M" "\<bar>qx\<bar> \<le> M" "\<bar>qy\<bar> \<le> M"
  obtains x' y' where
    "Fin qx - offsetX_f64 - (Fin px - (x n + offsetX_f64)) = Fin x'"
    "Fin qy - (Fin py - y n) = Fin y'"
    "\<bar>x' - (a + (qx - px))\<bar> \<le> M / 2 ^ 48" "\<bar>y' - (b + (qy - py))\<bar> \<le> M / 2 ^ 48"
proof -
  have big: "2 * M \<le> 2 ^ 1000" "4 * M \<le> 2 ^ 1000" "8 * M \<le> 2 ^ 1000"
  proof -
    have "8 * M \<le> 8 * 2 ^ 990" using M(2) by simp
    also have "\<dots> \<le> (2::real) ^ 1000" by simp
    finally show "8 * M \<le> 2 ^ 1000" .
    with M(1) show "2 * M \<le> 2 ^ 1000" "4 * M \<le> 2 ^ 1000" by linarith+
  qed
  have u: "M / 2 ^ 52 \<le> M / 8"
    using M(1) by (simp add: field_simps)
  have one: "1 \<le> 2 * M" "1 \<le> 4 * M" "1 \<le> 8 * M" using M(1) by linarith+
  have b1: "\<bar>a + 24\<bar> \<le> 2 * M" using bd M(1) by linarith
  obtain s1 where s1: "Fin a + Fin 24 = Fin s1" "\<bar>s1 - (a + 24)\<bar> \<le> 2 * M / 2 ^ 52"
    by (rule plus_error [OF b1 one(1) big(1)])
  have s1b: "\<bar>s1\<bar> \<le> 3 * M" using s1(2) b1 M(1) u by linarith
  have b2: "\<bar>px - s1\<bar> \<le> 4 * M" using s1b bd by linarith
  obtain d where d: "Fin px - Fin s1 = Fin d" "\<bar>d - (px - s1)\<bar> \<le> 4 * M / 2 ^ 52"
    by (rule minus_error [OF b2 one(2) big(2)])
  have db: "\<bar>d\<bar> \<le> 5 * M" using d(2) b2 M(1) u by linarith
  have b3: "\<bar>qx - 24\<bar> \<le> 2 * M" using bd M(1) by linarith
  obtain l where l: "Fin qx - Fin 24 = Fin l" "\<bar>l - (qx - 24)\<bar> \<le> 2 * M / 2 ^ 52"
    by (rule minus_error [OF b3 one(1) big(1)])
  have lb: "\<bar>l\<bar> \<le> 3 * M" using l(2) b3 M(1) u by linarith
  have b4: "\<bar>l - d\<bar> \<le> 8 * M" using lb db by linarith
  obtain x' where x': "Fin l - Fin d = Fin x'" "\<bar>x' - (l - d)\<bar> \<le> 8 * M / 2 ^ 52"
    by (rule minus_error [OF b4 one(3) big(3)])
  have ex: "\<bar>x' - (a + (qx - px))\<bar> \<le> M / 2 ^ 48"
  proof -
    have "\<bar>x' - (a + (qx - px))\<bar> \<le> 16 * M / 2 ^ 52"
      using x'(2) l(2) d(2) s1(2) by linarith
    then show ?thesis by simp
  qed
  have b5: "\<bar>py - b\<bar> \<le> 2 * M" using bd by linarith
  obtain dy where dy: "Fin py - Fin b = Fin dy" "\<bar>dy - (py - b)\<bar> \<le> 2 * M / 2 ^ 52"
    by (rule minus_error [OF b5 one(1) big(1)])
  have dyb: "\<bar>dy\<bar> \<le> 3 * M" using dy(2) b5 M(1) u by linarith
  have b6: "\<bar>qy - dy\<bar> \<le> 4 * M" using dyb bd by linarith
  obtain y' where y': "Fin qy - Fin dy = Fin y'" "\<bar>y' - (qy - dy)\<bar> \<le> 4 * M / 2 ^ 52"
    by (rule minus_error [OF b6 one(2) big(2)])
  have ey: "\<bar>y' - (b + (qy - py))\<bar> \<le> M / 2 ^ 48"
  proof -
    have "\<bar>y' - (b + (qy - py))\<bar> \<le> 6 * M / 2 ^ 52"
      using y'(2) dy(2) by linarith
    also have "\<dots> \<le> 16 * M / 2 ^ 52" using M(1) by (simp add: field_simps)
    finally show ?thesis by simp
  qed
  show thesis
    using that [of x' y'] s1(1) d(1) l(1) x'(1) dy(1) y'(1) ex ey
    by (simp add: n offsetX_f64_value)
qed

text \<open>
  C10, as the claim states it, fails. After the first drag the node \<^verbatim>\<open>appRender\<close> is at
  \<open>x = 10 + 1 / 2 ^ 47\<close>. Grabbed again at \<open>(170, 150)\<close>, inside its rectangle, the handler
  records \<open>dx = 170 - (34 + 1 / 2 ^ 47)\<close>, which rounds to 136; a pointer move at the
  unchanged position \<open>(170, 150)\<close> then puts the node at \<open>146 - 136 = 10\<close>, not where it was.
\<close>

theorem drag_f64_regrab_shifts_node:
  "x (nodes nudged ! 0) = Fin (10 + pow2_m47)
   \<and> x (nodes (handleMove_f64 (Fin 170, Fin 150)
                 (onPointerDown_f64 (nodes nudged ! 0) (Fin 170, Fin 150) nudged)) ! 0)
       = Fin 10
   \<and> Fin (10 + pow2_m47) \<noteq> Fin 10"
proof -
  have "Fin (10 + pow2_m47) \<noteq> Fin 10" by (simp add: pow2_m47_def)
  then show ?thesis
    by (simp add: handleMove_f64_nth onPointerDown_f64_simps nudged_node node0_fields
        offsetX_f64_value pow2_m47_sums fl_136_minus_pow2_m47)
qed

text \<open>
  C10, amended. The handlers compute the new position of the grabbed node as
  \<open>(q.x - offsetX) - (p.x - (x + offsetX))\<close> and \<open>q.y - (p.y - y)\<close>, each operation rounded
  to a double, so drag is a translation up to rounding. When the coordinates of the
  node, of the grab position \<open>p\<close> and of the pointer position \<open>q\<close> are finite and of
  magnitude at most \<open>M\<close>, with \<open>24 \<le> M \<le> 2 ^ 990\<close>, each coordinate of the new position
  differs from the position at grab time plus \<open>q - p\<close> by at most \<open>M / 2 ^ 48\<close>; a move at
  \<open>q = p\<close> leaves the node within that distance of where it was. The translation is exact,
  and a move at \<open>q = p\<close> leaves the position exactly unchanged, when all these coordinates
  are integer multiples of one power of two \<open>2 powi s\<close> with \<open>- 45 \<le> s \<le> 0\<close>, the factors of
  magnitude at most \<open>2 ^ 50\<close>: integers, for \<open>s = 0\<close>.
\<close>

theorem drag_f64_translates_up_to_rounding:
  fixes a b px py qx qy M :: real
  assumes "i < length (nodes st)"
    and "x (nodes st ! i) = Fin a" "y (nodes st ! i) = Fin b"
    and "24 \<le> M" "M \<le> 2 ^ 990"
    and "\<bar>a\<bar> \<le> M" "\<bar>b\<bar> \<le> M" "\<bar>px\<bar> \<le> M" "\<bar>py\<bar> \<le> M" "\<bar>qx\<bar> \<le> M" "\<bar>qy\<bar> \<le> M"
  shows "\<exists>x' y'.
      nodes (handleMove_f64 (Fin qx, Fin qy)
               (onPointerDown_f64 (nodes st ! i) (Fin px, Fin py) st)) ! i
        = (nodes st ! i)\<lparr>x := Fin x', y := Fin y'\<rparr>
      \<and> \<bar>x' - (a + (qx - px))\<bar> \<le> M / 2 ^ 48
      \<and> \<bar>y' - (b + (qy - py))\<bar> \<le> M / 2 ^ 48
      \<and> ((\<exists>s ka kb kpx kpy kqx kqy :: int.
             - 45 \<le> s \<and> s \<le> 0
             \<and> a = of_int ka * 2 powi s \<and> b = of_int kb * 2 powi s
             \<and> px = of_int kpx * 2 powi s \<and> py = of_int kpy * 2 powi s
             \<and> qx = of_int kqx * 2 powi s \<and> qy = of_int kqy * 2 powi s
             \<and> \<bar>ka\<bar> \<le> 2 ^ 50 \<and> \<bar>kb\<bar> \<le> 2 ^ 50 \<and> \<bar>kpx\<bar> \<le> 2 ^ 50 \<and> \<bar>kpy\<bar> \<le> 2 ^ 50
             \<and> \<bar>kqx\<bar> \<le> 2 ^ 50 \<and> \<bar>kqy\<bar> \<le> 2 ^ 50)
           \<longrightarrow> x' = a + (qx - px) \<and> y' = b + (qy - py))"
proof -
  let ?n = "nodes st ! i"
  from drag_f64_error [OF assms(2-11)] obtain x' y' where
    cx: "Fin qx - offsetX_f64 - (Fin px - (x ?n + offsetX_f64)) = Fin x'" and
    cy: "Fin qy - (Fin py - y ?n) = Fin y'" and
    ex: "\<bar>x' - (a + (qx - px))\<bar> \<le> M / 2 ^ 48" and
    ey: "\<bar>y' - (b + (qy - py))\<bar> \<le> M / 2 ^ 48"
    by blast
  have node: "nodes (handleMove_f64 (Fin qx, Fin qy)
               (onPointerDown_f64 ?n (Fin px, Fin py) st)) ! i
        = ?n\<lparr>x := Fin x', y := Fin y'\<rparr>"
    using assms(1) cx cy by (simp add: handleMove_f64_nth onPointerDown_f64_def)
  have exact: "x' = a + (qx - px) \<and> y' = b + (qy - py)"
    if g: "- 45 \<le> s" "s \<le> 0"
      "a = of_int ka * 2 powi s" "b = of_int kb * 2 powi s"
      "px = of_int kpx * 2 powi s" "py = of_int kpy * 2 powi s"
      "qx = of_int kqx * 2 powi s" "qy = of_int kqy * 2 powi s"
      "\<bar>ka\<bar> \<le> 2 ^ 50" "\<bar>kb\<bar> \<le> 2 ^ 50" "\<bar>kpx\<bar> \<le> 2 ^ 50" "\<bar>kpy\<bar> \<le> 2 ^ 50"
      "\<bar>kqx\<bar> \<le> 2 ^ 50" "\<bar>kqy\<bar> \<le> 2 ^ 50"
    for s ka kb kpx kpy kqx kqy :: int
  proof -
    have nx: "x ?n = Fin (of_int ka * 2 powi s)" and ny: "y ?n = Fin (of_int kb * 2 powi s)"
      using assms(2,3) g(3,4) by simp_all
    from drag_f64_on_grid [OF g(1,2) nx ny g(9-14)] cx cy
    have "x' = of_int (ka + (kqx - kpx)) * 2 powi s" "y' = of_int (kb + (kqy - kpy)) * 2 powi s"
      by (simp_all add: g(5-8))
    then show ?thesis by (simp add: g(3-8) algebra_simps)
  qed
  from node ex ey exact show ?thesis by blast
qed

theorem drag_f64_translates_up_to_rounding_witness:
  "(0::nat) < length (nodes diagram_init_f64)
   \<and> x (nodes diagram_init_f64 ! 0) = Fin 10 \<and> y (nodes diagram_init_f64 ! 0) = Fin 100
   \<and> (24::real) \<le> 1024 \<and> (1024::real) \<le> 2 ^ 990
   \<and> nodes (handleMove_f64 (Fin 100, Fin 200)
               (onPointerDown_f64 (nodes diagram_init_f64 ! 0) (Fin 50, Fin 150)
                  diagram_init_f64)) ! 0
        = (initialNodes_f64 ! 0)\<lparr>x := Fin 60, y := Fin 150\<rparr>
   \<and> nodes (handleMove_f64 (Fin 50, Fin 150)
               (onPointerDown_f64 (nodes diagram_init_f64 ! 0) (Fin 50, Fin 150)
                  diagram_init_f64)) ! 0
        = initialNodes_f64 ! 0"
proof -
  have h1: "(0::nat) < length (nodes diagram_init_f64)"
    by (simp add: diagram_init_f64_simps length_initialNodes_f64)
  have h2: "x (nodes diagram_init_f64 ! 0) = Fin 10" and h3: "y (nodes diagram_init_f64 ! 0) = Fin 100"
    by (simp_all add: diagram_init_f64_simps node0_fields)
  have h4: "(24::real) \<le> 1024" and h5: "(1024::real) \<le> 2 ^ 990"
    by simp_all
  have b: "\<bar>10::real\<bar> \<le> 1024" "\<bar>100::real\<bar> \<le> 1024" "\<bar>50::real\<bar> \<le> 1024"
    "\<bar>150::real\<bar> \<le> 1024" "\<bar>100::real\<bar> \<le> 1024" "\<bar>200::real\<bar> \<le> 1024"
    by simp_all
  note t = drag_f64_translates_up_to_rounding
    [of 0 diagram_init_f64 10 100 1024 50 150 100 200, OF h1 h2 h3 h4 h5 b]
  have e1: "nodes (handleMove_f64 (Fin 100, Fin 200)
               (onPointerDown_f64 (nodes diagram_init_f64 ! 0) (Fin 50, Fin 150)
                  diagram_init_f64)) ! 0
        = (initialNodes_f64 ! 0)\<lparr>x := Fin 60, y := Fin 150\<rparr>"
    by (simp add: diagram_init_f64_simps node0_fields length_initialNodes_f64
        handleMove_f64_nth onPointerDown_f64_simps offsetX_f64_value)
  have e2: "nodes (handleMove_f64 (Fin 50, Fin 150)
               (onPointerDown_f64 (nodes diagram_init_f64 ! 0) (Fin 50, Fin 150)
                  diagram_init_f64)) ! 0
        = initialNodes_f64 ! 0"
    by (simp add: diagram_init_f64_simps node0_fields length_initialNodes_f64
        handleMove_f64_nth onPointerDown_f64_simps offsetX_f64_value)
  from t h1 h2 h3 h4 h5 e1 e2 show ?thesis
    by - (intro conjI, assumption+)
qed

end
